theory Spec2Isabelle
  imports Main
begin

section \<open>The agent of memgpt\_agent.py\<close>

subsection \<open>Memory tiers\<close>

datatype EventType = UserMessage | AgentMessage | FunctionMessage | SystemMessage

text \<open>
  An event of the recall tier: its type and its content. The metadata argument of
  \<^verbatim>\<open>add_event_to_queue\<close> is \<^verbatim>\<open>{}\<close> at every call of the agent and the timestamp
  is the wall clock; neither is read by the controller, so both are left out.
\<close>

type_synonym Event = "EventType \<times> string"

text \<open>
  The state of the three memory tiers as the controller reads it:
  \<^item> \<open>event_queue\<close>: the queue of the event memory manager, oldest first: what
    \<^verbatim>\<open>add_event_to_queue\<close> appends to and \<^verbatim>\<open>build_event_memory_context\<close> reads;
  \<^item> \<open>session_events\<close>: the rows of the event database, which the agent reads through
    \<^verbatim>\<open>event_memory_manager.session.query(Event).all()\<close>, apart from the queue;
  \<^item> \<open>iam_content\<close>: \<^verbatim>\<open>build_core_memory_context()\<close> of the core memory manager;
  \<^item> \<open>last_modified\<close>: the core memory manager's \<^verbatim>\<open>last_modified\<close> (an abstract time);
  \<^item> \<open>ckv_count\<close>: \<^verbatim>\<open>retrieval_memory.collection.count()\<close>.
\<close>

record tiers =
  event_queue :: "Event list"
  session_events :: "Event list"
  iam_content :: string
  last_modified :: nat
  ckv_count :: nat

subsection \<open>The completion provider and the calls made to it\<close>

text \<open>The values substituted into the system prompt template \<^verbatim>\<open>sys_prompt2\<close>.
  (\<^verbatim>\<open>current_date_time\<close> is passed to the template but the template has no such
  placeholder.)\<close>

record system_prompt =
  sp_documentation :: string
  sp_last_modified :: nat
  sp_iam_content :: string
  sp_ckv_count :: nat
  sp_imb_count :: nat

text \<open>One invocation of \<^verbatim>\<open>get_chat_response\<close>: the system prompt, the message window
  the agent held at that moment, whether the tool registry was passed, and \<^verbatim>\<open>n_predict\<close>.\<close>

record generation =
  g_system_prompt :: system_prompt
  g_messages :: "Event list"
  g_function_tool_registry :: bool
  g_n_predict :: nat

record function_call =
  fc_function :: string
  fc_params :: string
  fc_request_heartbeat :: "bool option"

text \<open>What the model produced at one generation: the raw text, and the structured call
  it parses to (\<open>None\<close> when the text is no structured call).\<close>

record completion =
  raw :: string
  tool_call :: "function_call option"

text \<open>The provider is a sequence of completions; the \<open>i\<close>-th invocation of
  \<^verbatim>\<open>get_chat_response\<close> on an agent receives the \<open>i\<close>-th one.\<close>

type_synonym provider = "nat \<Rightarrow> completion"

text \<open>The entry of the list that \<^verbatim>\<open>get_chat_response\<close> returns for a structured call.\<close>

record tool_result =
  tr_function :: string
  tr_return_value :: string
  tr_request_heartbeat :: "bool option"

datatype chat_result = Text string | Calls "tool_result list"

datatype py_error = IndexError | UnknownTool | TypeError | AttributeError | FileNotFoundError

subsection \<open>The agent\<close>

text \<open>The fields of the agent that the turn reads or writes, with two logs added:
  \<open>generations\<close>, the invocations of \<^verbatim>\<open>get_chat_response\<close> so far, and
  \<open>sent_to_user\<close>, the messages given to \<^verbatim>\<open>send_message_to_user\<close> (the callback or
  the console). \<open>formatter_USE_FUNCTION_CALL_END\<close> is
  \<^verbatim>\<open>llama_cpp_agent.messages_formatter.USE_FUNCTION_CALL_END\<close>.\<close>

record agent =
  memory :: tiers
  llm_messages :: "Event list"
  last_response :: string
  formatter_USE_FUNCTION_CALL_END :: bool
  documentation :: string
  generations :: "generation list"
  sent_to_user :: "string list"

text \<open>The tools of the memory tiers (\<^verbatim>\<open>get_tool_list()\<close> of the three memories), by
  name: a handler takes the call's parameters and the tiers, and gives the return value
  and the tiers as it leaves them.\<close>

type_synonym registry = "string \<rightharpoonup> (string \<Rightarrow> tiers \<Rightarrow> string \<times> tiers)"

text \<open>Modelled from the spec: \<^verbatim>\<open>add_event_to_queue\<close> of the event memory manager
  (memory/event\_memory.py), the spec's \<^verbatim>\<open>EventLog.append\<close>: it always succeeds, keeps
  the order of appends, and is visible to the next read of the queue. It writes no row
  of the event database.\<close>

definition add_event_to_queue :: "EventType \<Rightarrow> string \<Rightarrow> agent \<Rightarrow> agent" where
  "add_event_to_queue ty c a =
     a\<lparr>memory := (memory a)\<lparr>event_queue := event_queue (memory a) @ [(ty, c)]\<rparr>\<rparr>"

text \<open>Modelled from the spec: \<^verbatim>\<open>build_event_memory_context\<close> of the event memory
  manager: the message window rebuilt from the event log.\<close>

definition build_event_memory_context :: "agent \<Rightarrow> Event list" where
  "build_event_memory_context a = event_queue (memory a)"

text \<open>Modelled from the spec: \<^verbatim>\<open>session.query(Event).all()\<close> (lines 91 and 196), whose
  length is the spec's \<^verbatim>\<open>recall_count\<close>: the rows of the event database at that moment,
  as a list that later writes do not change. The source reads them through the session
  and not through the queue.\<close>

definition query_all :: "agent \<Rightarrow> Event list" where
  "query_all a = session_events (memory a)"

text \<open>The dictionary handed to \<^verbatim>\<open>generate_prompt\<close>; \<open>query\<close> is the list whose length
  becomes \<^verbatim>\<open>imb_count\<close>.\<close>

definition generate_prompt :: "agent \<Rightarrow> Event list \<Rightarrow> system_prompt" where
  "generate_prompt a query =
     \<lparr>sp_documentation = documentation a,
      sp_last_modified = last_modified (memory a),
      sp_iam_content = iam_content (memory a),
      sp_ckv_count = ckv_count (memory a),
      sp_imb_count = length query\<rparr>"

definition send_message_to_user :: "string \<Rightarrow> agent \<Rightarrow> agent" where
  "send_message_to_user message a = a\<lparr>sent_to_user := sent_to_user a @ [message]\<rparr>"

text \<open>Modelled from the spec: the completion provider behind llama\_cpp\_agent's
  \<^verbatim>\<open>get_chat_response\<close>, which is not part of the sources: the invocation is recorded,
  the next completion is taken, and its raw text becomes \<^verbatim>\<open>last_response\<close> before any
  tool is dispatched (line 85 reads the call's own text there).\<close>

definition invoke_provider ::
  "provider \<Rightarrow> system_prompt \<Rightarrow> bool \<Rightarrow> nat \<Rightarrow> agent \<Rightarrow> agent \<times> completion" where
  "invoke_provider prov sp with_registry n_predict a =
     (let out = prov (length (generations a)) in
      (a\<lparr>generations := generations a @
            [\<lparr>g_system_prompt = sp, g_messages = llm_messages a,
              g_function_tool_registry = with_registry, g_n_predict = n_predict\<rparr>],
         last_response := raw out\<rparr>, out))"

definition activate_message_mode_name :: string where
  "activate_message_mode_name = ''activate_message_mode''"

text \<open>\<^verbatim>\<open>activate_message_mode.run\<close>. The nested \<^verbatim>\<open>get_chat_response\<close> is given no tool
  registry, so it returns the raw text.\<close>

definition activate_message_mode_run :: "provider \<Rightarrow> agent \<Rightarrow> agent \<times> string" where
  "activate_message_mode_run prov agent0 =
     (let a1 = agent0\<lparr>formatter_USE_FUNCTION_CALL_END := False\<rparr>;
          a2 = add_event_to_queue AgentMessage (last_response a1) a1;
          a3 = add_event_to_queue FunctionMessage ''Message mode activated.'' a2;
          a4 = a3\<lparr>llm_messages := build_event_memory_context a3\<rparr>;
          query = query_all a4;
          sp = generate_prompt a4 query;
          (a5, out) = invoke_provider prov sp False 4096 a4;
          a6 = send_message_to_user (raw out) a5
      in (a6, ''Message mode activated.''))"

text \<open>Modelled from the spec: the dispatch of the tool registry (llama\_cpp\_agent's
  \<^verbatim>\<open>handle_function_call\<close>, the spec's \<^verbatim>\<open>ToolRegistry.dispatch\<close>). Text that is no
  structured call is returned as it is; a call of an unregistered name fails with
  UnknownTool; otherwise the handler runs and its return value is wrapped with the
  requested heartbeat. \<^verbatim>\<open>activate_message_mode\<close> is registered by the constructor with
  \<^verbatim>\<open>add_outer_request_heartbeat_field=False\<close>: its result carries no heartbeat request,
  whatever the call asked for.\<close>

definition handle_function_call ::
  "provider \<Rightarrow> registry \<Rightarrow> agent \<Rightarrow> completion \<Rightarrow> py_error + agent \<times> chat_result" where
  "handle_function_call prov reg a out =
     (case tool_call out of
        None \<Rightarrow> Inr (a, Text (raw out))
      | Some c \<Rightarrow>
          if fc_function c = activate_message_mode_name then
            (let (a', rv) = activate_message_mode_run prov a in
             Inr (a', Calls [\<lparr>tr_function = activate_message_mode_name, tr_return_value = rv,
                               tr_request_heartbeat = None\<rparr>]))
          else
            (case reg (fc_function c) of
               None \<Rightarrow> Inl UnknownTool
             | Some h \<Rightarrow>
                 (let (rv, m') = h (fc_params c) (memory a) in
                  Inr (a\<lparr>memory := m'\<rparr>,
                       Calls [\<lparr>tr_function = fc_function c, tr_return_value = rv,
                               tr_request_heartbeat = fc_request_heartbeat c\<rparr>]))))"

text \<open>\<^verbatim>\<open>get_chat_response\<close> as \<^verbatim>\<open>get_response\<close> calls it (with the tool registry,
  \<^verbatim>\<open>n_predict=1024\<close>).\<close>

definition get_chat_response ::
  "provider \<Rightarrow> registry \<Rightarrow> system_prompt \<Rightarrow> agent \<Rightarrow> py_error + agent \<times> chat_result" where
  "get_chat_response prov reg sp a =
     (let (a1, out) = invoke_provider prov sp True 1024 a in handle_function_call prov reg a1 out)"

subsection \<open>get\_response\<close>

text \<open>Lines 194-215 and again 227-247: the window is rebuilt, the prompt rendered with
  the length of \<open>query\<close> as \<^verbatim>\<open>imb_count\<close>, the provider called, and the last response
  appended as an AgentMessage event.\<close>

definition generation_round ::
  "provider \<Rightarrow> registry \<Rightarrow> Event list \<Rightarrow> agent \<Rightarrow> py_error + agent \<times> chat_result" where
  "generation_round prov reg query a =
     (let a1 = a\<lparr>llm_messages := build_event_memory_context a\<rparr>;
          sp = generate_prompt a1 query
      in case get_chat_response prov reg sp a1 of
           Inl e \<Rightarrow> Inl e
         | Inr (a2, result) \<Rightarrow> Inr (add_event_to_queue AgentMessage (last_response a2) a2, result))"

datatype step = Continue "agent \<times> chat_result" | Break agent | Raise py_error

text \<open>One pass through the body of \<^verbatim>\<open>while True\<close> (lines 218-251), by what
  \<^verbatim>\<open>result[0]\<close> is: an IndexError on an empty string or list, a string (a character of
  the text) or the first dictionary of the list.\<close>

fun loop_body ::
  "provider \<Rightarrow> registry \<Rightarrow> Event list \<Rightarrow> agent \<times> chat_result \<Rightarrow> step" where
  "loop_body prov reg query (a, Text []) = Raise IndexError"
| "loop_body prov reg query (a, Text (c # cs)) =
     (let a1 = add_event_to_queue FunctionMessage (c # cs) a;
          a2 = add_event_to_queue FunctionMessage (c # cs) a1
      in Continue (a2, Text (c # cs)))"
| "loop_body prov reg query (a, Calls []) = Raise IndexError"
| "loop_body prov reg query (a, Calls (r # rs)) =
     (let a1 = (if tr_function r \<noteq> activate_message_mode_name
                then add_event_to_queue FunctionMessage (tr_return_value r) a else a)
      in if tr_request_heartbeat r \<noteq> None \<and> tr_request_heartbeat r = Some True then
           (case generation_round prov reg query a1 of
              Inl e \<Rightarrow> Raise e
            | Inr st' \<Rightarrow> Continue st')
         else Break a1)"

partial_function (option) heartbeat_loop ::
  "provider \<Rightarrow> registry \<Rightarrow> Event list \<Rightarrow> agent \<times> chat_result \<Rightarrow> (py_error + agent) option" where
  "heartbeat_loop prov reg query st =
     (case loop_body prov reg query st of
        Continue st' \<Rightarrow> heartbeat_loop prov reg query st'
      | Break a \<Rightarrow> Some (Inr a)
      | Raise e \<Rightarrow> Some (Inl e))"

text \<open>The state after \<open>k\<close> passes through the loop body (or the way the loop was left
  before that).\<close>

fun loop_steps ::
  "provider \<Rightarrow> registry \<Rightarrow> Event list \<Rightarrow> nat \<Rightarrow> agent \<times> chat_result \<Rightarrow> step" where
  "loop_steps prov reg query 0 st = Continue st"
| "loop_steps prov reg query (Suc k) st =
     (case loop_body prov reg query st of
        Continue st' \<Rightarrow> loop_steps prov reg query k st'
      | Break a \<Rightarrow> Break a
      | Raise e \<Rightarrow> Raise e)"

text \<open>Lines 192-196: the turn starts. The result is the agent and \<open>query\<close>, the list of
  events read once here.\<close>

definition begin_turn :: "string \<Rightarrow> agent \<Rightarrow> agent \<times> Event list" where
  "begin_turn message a =
     (let a1 = a\<lparr>formatter_USE_FUNCTION_CALL_END := True\<rparr>;
          a2 = add_event_to_queue UserMessage message a1
      in (a2, query_all a2))"

text \<open>Lines 192-206 up to the provider's answer: the state in which the first tool
  dispatch starts, the completion to dispatch, and \<open>query\<close>.\<close>

definition first_generation ::
  "provider \<Rightarrow> string \<Rightarrow> agent \<Rightarrow> agent \<times> completion \<times> Event list" where
  "first_generation prov message a =
     (let (a2, query) = begin_turn message a;
          a3 = a2\<lparr>llm_messages := build_event_memory_context a2\<rparr>;
          (a4, out) = invoke_provider prov (generate_prompt a3 query) True 1024 a3
      in (a4, out, query))"

definition get_response :: "provider \<Rightarrow> registry \<Rightarrow> agent \<Rightarrow> string \<Rightarrow> (py_error + agent) option" where
  "get_response prov reg a message =
     (let (a2, query) = begin_turn message a in
      case generation_round prov reg query a2 of
        Inl e \<Rightarrow> Some (Inl e)
      | Inr st \<Rightarrow> heartbeat_loop prov reg query st)"


text \<open>Whether a completion is a structured call of a registered memory tool whose outer
  heartbeat field is \<open>hb\<close>.\<close>

definition requests :: "registry \<Rightarrow> completion \<Rightarrow> bool option \<Rightarrow> bool" where
  "requests reg out hb =
     (case tool_call out of
        None \<Rightarrow> False
      | Some c \<Rightarrow> fc_function c \<noteq> activate_message_mode_name \<and> reg (fc_function c) \<noteq> None
                  \<and> fc_request_heartbeat c = hb)"

text \<open>How the loop was left: by an exception or by \<^verbatim>\<open>break\<close>.\<close>

definition left_by :: "step \<Rightarrow> py_error + agent \<Rightarrow> bool" where
  "left_by s y = (case y of Inl e \<Rightarrow> s = Raise e | Inr a \<Rightarrow> s = Break a)"

subsection \<open>The constructor's check of the generation settings\<close>

datatype llama_llm = Llama | LlamaLLMSettings | LlamaCppEndpointSettings | OpenAIEndpointSettings

datatype generation_settings =
  LlamaLLMGenerationSettings | LlamaCppGenerationSettings | OpenAIGenerationSettings

datatype config_error =
  WrongSettingsForServerEndpoint | WrongSettingsForLlamaCppPython | WrongSettingsForOpenAI

text \<open>Lines 127-149 of \<^verbatim>\<open>MemGptAgent.__init__\<close>, by the class of \<^verbatim>\<open>llama_llm\<close> and of
  \<^verbatim>\<open>llama_generation_settings\<close> (\<open>None\<close> when left unset): the exception raised, or
  the settings the agent keeps. In line 139 \<^verbatim>\<open>and\<close> binds tighter than \<^verbatim>\<open>or\<close>.\<close>

definition MemGptAgent_init ::
  "llama_llm \<Rightarrow> generation_settings option \<Rightarrow> config_error + generation_settings" where
  "MemGptAgent_init llm settings =
     (let s = (case settings of
                 None \<Rightarrow>
                   if llm = Llama \<or> llm = LlamaLLMSettings then LlamaLLMGenerationSettings
                   else if llm = OpenAIEndpointSettings then OpenAIGenerationSettings
                   else LlamaCppGenerationSettings
               | Some s \<Rightarrow> s)
      in if s = LlamaLLMGenerationSettings \<and> llm = LlamaCppEndpointSettings
           then Inl WrongSettingsForServerEndpoint
         else if llm = Llama \<or> (llm = LlamaLLMSettings \<and> s = LlamaCppGenerationSettings)
           then Inl WrongSettingsForLlamaCppPython
         else if llm = OpenAIEndpointSettings \<and> s \<noteq> OpenAIGenerationSettings
           then Inl WrongSettingsForOpenAI
         else Inr s)"

section \<open>The MessagesFormatter of mini\_memgpt.py\<close>

record MessagesFormatter =
  PRE_PROMPT :: string
  SYS_PROMPT_START :: string
  SYS_PROMPT_END :: string
  USER_PROMPT_START :: string
  USER_PROMPT_END :: string
  ASSISTANT_PROMPT_START :: string
  ASSISTANT_PROMPT_END :: string
  INCLUDE_SYS_PROMPT_IN_FIRST_USER_MESSAGE :: bool
  DEFAULT_STOP_SEQUENCES :: "string list"
  FUNCTION_CALL_PROMPT_START :: string
  FUNCTION_CALL_PROMPT_END :: string
  FUNCTION_PROMPT_START :: string
  FUNCTION_PROMPT_END :: string
  USE_USER_ROLE_FUNCTION_CALL_RESULT :: bool
  STRIP_PROMPT :: bool
  USE_FUNCTION_CALL_END :: bool

subsection \<open>format\_messages\<close>

text \<open>The content of a message: a string, or (for function results) a list of values
  that \<^verbatim>\<open>json.dumps\<close> turns into text.\<close>

datatype 'j content = Str string | Items "'j list"

record 'j message =
  role :: string
  content :: "'j content"

text \<open>\<^verbatim>\<open>str.isspace\<close> on a character read as a code point below 256.\<close>

definition py_isspace :: "char \<Rightarrow> bool" where
  "py_isspace c = (of_char c \<in> {9::nat, 10, 11, 12, 13, 28, 29, 30, 31, 32, 133, 160})"

definition strip :: "string \<Rightarrow> string" where
  "strip s = rev (dropWhile py_isspace (rev (dropWhile py_isspace s)))"

text \<open>\<^verbatim>\<open>s.strip().startswith("{")\<close>\<close>

definition starts_with_brace :: "string \<Rightarrow> bool" where
  "starts_with_brace s = (case strip s of [] \<Rightarrow> False | c # cs \<Rightarrow> c = CHR ''{'')"

fun join :: "string \<Rightarrow> string list \<Rightarrow> string" where
  "join sep [] = []"
| "join sep [x] = x"
| "join sep (x # y # ys) = x @ sep @ join sep (y # ys)"

text \<open>The three local variables of the loop.\<close>

record fm_state =
  formatted_messages :: string
  last_role :: string
  no_user_prompt_start :: bool

text \<open>The body of \<^verbatim>\<open>for message in messages\<close> (lines 79-108): the message as the body
  leaves it and the new locals, or the exception. \<open>dumps\<close> is
  \<^verbatim>\<open>json.dumps(m, indent=2)\<close>. Concatenating a string and a list raises TypeError,
  \<^verbatim>\<open>.strip()\<close> of a list AttributeError; both come before any assignment to the
  message.\<close>

definition format_message ::
  "('j \<Rightarrow> string) \<Rightarrow> MessagesFormatter \<Rightarrow> fm_state \<Rightarrow> 'j message
     \<Rightarrow> py_error + 'j message \<times> fm_state" where
  "format_message dumps f s m =
     (if role m = ''system'' then
        (case content m of
           Items xs \<Rightarrow> Inl TypeError
         | Str c \<Rightarrow>
             (let s1 = s\<lparr>formatted_messages :=
                           formatted_messages s @ SYS_PROMPT_START f @ c @ SYS_PROMPT_END f,
                         last_role := ''system''\<rparr>
              in if INCLUDE_SYS_PROMPT_IN_FIRST_USER_MESSAGE f
                 then Inr (m, s1\<lparr>formatted_messages := USER_PROMPT_START f @ formatted_messages s1,
                                  no_user_prompt_start := True\<rparr>)
                 else Inr (m, s1)))
      else if role m = ''user'' then
        (case content m of
           Items xs \<Rightarrow> Inl TypeError
         | Str c \<Rightarrow>
             (if no_user_prompt_start s
              then Inr (m, s\<lparr>formatted_messages := formatted_messages s @ c @ USER_PROMPT_END f,
                             last_role := ''user'', no_user_prompt_start := False\<rparr>)
              else Inr (m, s\<lparr>formatted_messages :=
                               formatted_messages s @ USER_PROMPT_START f @ c @ USER_PROMPT_END f,
                             last_role := ''user''\<rparr>)))
      else if role m = ''assistant'' then
        (case content m of
           Items xs \<Rightarrow> Inl AttributeError
         | Str c0 \<Rightarrow>
             (let c = (if STRIP_PROMPT f then strip c0 else c0);
                  m' = (if STRIP_PROMPT f then m\<lparr>content := Str c\<rparr> else m)
              in if starts_with_brace c
                 then Inr (m', s\<lparr>formatted_messages := formatted_messages s
                                    @ FUNCTION_CALL_PROMPT_START f @ c @ FUNCTION_CALL_PROMPT_END f,
                                  last_role := ''assistant''\<rparr>)
                 else Inr (m', s\<lparr>formatted_messages := formatted_messages s
                                    @ ASSISTANT_PROMPT_START f @ c @ ASSISTANT_PROMPT_END f,
                                  last_role := ''assistant''\<rparr>)))
      else if role m = ''function'' then
        (let c = (case content m of
                    Items xs \<Rightarrow> join [CHR 0x0A] (map dumps xs)
                  | Str c0 \<Rightarrow> c0);
             m' = (case content m of Items xs \<Rightarrow> m\<lparr>content := Str c\<rparr> | Str c0 \<Rightarrow> m)
         in if USE_USER_ROLE_FUNCTION_CALL_RESULT f
            then Inr (m', s\<lparr>formatted_messages :=
                               formatted_messages s @ USER_PROMPT_START f @ c @ USER_PROMPT_END f,
                             last_role := ''user''\<rparr>)
            else Inr (m', s\<lparr>formatted_messages := formatted_messages s
                               @ FUNCTION_PROMPT_START f @ c @ FUNCTION_PROMPT_END f,
                             last_role := ''function''\<rparr>))
      else Inr (m, s))"

text \<open>The loop over the list: the list as the loop leaves it (the messages before an
  exception already rewritten), and the locals or the exception.\<close>

fun format_loop ::
  "('j \<Rightarrow> string) \<Rightarrow> MessagesFormatter \<Rightarrow> fm_state \<Rightarrow> 'j message list
     \<Rightarrow> 'j message list \<times> (py_error + fm_state)" where
  "format_loop dumps f s [] = ([], Inr s)"
| "format_loop dumps f s (m # ms) =
     (case format_message dumps f s m of
        Inl e \<Rightarrow> (m # ms, Inl e)
      | Inr (m', s') \<Rightarrow>
          (let (ms', r) = format_loop dumps f s' ms in (m' # ms', r)))"

text \<open>Lines 109-122: the returned pair.\<close>

definition format_result :: "MessagesFormatter \<Rightarrow> fm_state \<Rightarrow> string \<times> string" where
  "format_result f s =
     (if USE_FUNCTION_CALL_END f then
        (if STRIP_PROMPT f
         then (formatted_messages s @ strip (FUNCTION_CALL_PROMPT_START f), ''assistant'')
         else (formatted_messages s @ FUNCTION_CALL_PROMPT_START f, ''assistant''))
      else if last_role s = ''system'' \<or> last_role s = ''user'' \<or> last_role s = ''function'' then
        (if STRIP_PROMPT f
         then (formatted_messages s @ strip (ASSISTANT_PROMPT_START f), ''assistant'')
         else (formatted_messages s @ ASSISTANT_PROMPT_START f, ''assistant''))
      else if STRIP_PROMPT f
        then (formatted_messages s @ strip (USER_PROMPT_START f), ''user'')
        else (formatted_messages s @ USER_PROMPT_START f, ''user''))"

text \<open>\<^verbatim>\<open>format_messages\<close>: the caller's list after the call, and the returned pair or the
  exception.\<close>

definition format_messages ::
  "('j \<Rightarrow> string) \<Rightarrow> MessagesFormatter \<Rightarrow> 'j message list
     \<Rightarrow> 'j message list \<times> (py_error + string \<times> string)" where
  "format_messages dumps f msgs =
     (let (msgs', r) =
            format_loop dumps f
              \<lparr>formatted_messages = PRE_PROMPT f, last_role = ''assistant'',
               no_user_prompt_start = False\<rparr> msgs
      in (msgs', case r of Inl e \<Rightarrow> Inl e | Inr s \<Rightarrow> Inr (format_result f s)))"

text \<open>The claimed effect on one entry, in the words of the claim: an assistant entry is
  stripped when \<^verbatim>\<open>STRIP_PROMPT\<close> is set, a function entry's list becomes the joined
  JSON text, anything else stays.\<close>

definition rewritten :: "('j \<Rightarrow> string) \<Rightarrow> MessagesFormatter \<Rightarrow> 'j message \<Rightarrow> 'j message" where
  "rewritten dumps f m =
     (case content m of
        Str c \<Rightarrow> if role m = ''assistant'' \<and> STRIP_PROMPT f then m\<lparr>content := Str (strip c)\<rparr> else m
      | Items xs \<Rightarrow>
          if role m = ''function'' then m\<lparr>content := Str (join [CHR 0x0A] (map dumps xs))\<rparr> else m)"

definition known_role :: "'j message \<Rightarrow> bool" where
  "known_role m = (role m \<in> {''system'', ''user'', ''assistant'', ''function''})"

text \<open>The content is a string wherever the body concatenates or strips it.\<close>

definition string_content :: "'j message \<Rightarrow> bool" where
  "string_content m =
     (role m \<in> {''system'', ''user'', ''assistant''} \<longrightarrow> (case content m of Str c \<Rightarrow> True | Items xs \<Rightarrow> False))"

subsection \<open>save, load\_from\_file, as\_dict\<close>

datatype json_value = JString string | JBool bool | JStrings "string list"

type_synonym json_object = "(string \<times> json_value) list"

text \<open>\<^verbatim>\<open>as_dict\<close> returns \<^verbatim>\<open>self.__dict__\<close>: every attribute that \<^verbatim>\<open>__init__\<close> assigns,
  in the order of the first assignment.\<close>

definition as_dict :: "MessagesFormatter \<Rightarrow> json_object" where
  "as_dict f =
     [(''PRE_PROMPT'', JString (PRE_PROMPT f)),
      (''SYS_PROMPT_START'', JString (SYS_PROMPT_START f)),
      (''SYS_PROMPT_END'', JString (SYS_PROMPT_END f)),
      (''USER_PROMPT_START'', JString (USER_PROMPT_START f)),
      (''USER_PROMPT_END'', JString (USER_PROMPT_END f)),
      (''ASSISTANT_PROMPT_START'', JString (ASSISTANT_PROMPT_START f)),
      (''ASSISTANT_PROMPT_END'', JString (ASSISTANT_PROMPT_END f)),
      (''INCLUDE_SYS_PROMPT_IN_FIRST_USER_MESSAGE'',
         JBool (INCLUDE_SYS_PROMPT_IN_FIRST_USER_MESSAGE f)),
      (''DEFAULT_STOP_SEQUENCES'', JStrings (DEFAULT_STOP_SEQUENCES f)),
      (''FUNCTION_CALL_PROMPT_START'', JString (FUNCTION_CALL_PROMPT_START f)),
      (''FUNCTION_CALL_PROMPT_END'', JString (FUNCTION_CALL_PROMPT_END f)),
      (''FUNCTION_PROMPT_START'', JString (FUNCTION_PROMPT_START f)),
      (''FUNCTION_PROMPT_END'', JString (FUNCTION_PROMPT_END f)),
      (''USE_USER_ROLE_FUNCTION_CALL_RESULT'', JBool (USE_USER_ROLE_FUNCTION_CALL_RESULT f)),
      (''STRIP_PROMPT'', JBool (STRIP_PROMPT f)),
      (''USE_FUNCTION_CALL_END'', JBool (USE_FUNCTION_CALL_END f))]"

text \<open>The parameters of \<^verbatim>\<open>__init__\<close>; the last four have defaults.\<close>

definition init_parameters :: "string list" where
  "init_parameters =
     [''PRE_PROMPT'', ''SYS_PROMPT_START'', ''SYS_PROMPT_END'', ''USER_PROMPT_START'',
      ''USER_PROMPT_END'', ''ASSISTANT_PROMPT_START'', ''ASSISTANT_PROMPT_END'',
      ''FUNCTION_CALL_PROMPT_START'', ''FUNCTION_CALL_PROMPT_END'',
      ''INCLUDE_SYS_PROMPT_IN_FIRST_USER_MESSAGE'', ''DEFAULT_STOP_SEQUENCES'',
      ''USE_USER_ROLE_FUNCTION_CALL_RESULT'', ''FUNCTION_PROMPT_START'', ''FUNCTION_PROMPT_END'',
      ''STRIP_PROMPT'']"

definition get_string :: "json_object \<Rightarrow> string \<Rightarrow> string option \<Rightarrow> string option" where
  "get_string d k dflt =
     (case map_of d k of None \<Rightarrow> dflt | Some (JString v) \<Rightarrow> Some v | Some other \<Rightarrow> None)"

definition get_bool :: "json_object \<Rightarrow> string \<Rightarrow> bool option \<Rightarrow> bool option" where
  "get_bool d k dflt =
     (case map_of d k of None \<Rightarrow> dflt | Some (JBool v) \<Rightarrow> Some v | Some other \<Rightarrow> None)"

definition get_strings :: "json_object \<Rightarrow> string \<Rightarrow> string list option" where
  "get_strings d k = (case map_of d k of Some (JStrings v) \<Rightarrow> Some v | other \<Rightarrow> None)"

text \<open>The body of \<^verbatim>\<open>__init__\<close> on bound arguments; \<open>None\<close> when a parameter without
  default is missing (or holds a value that the typed record cannot keep).\<close>

definition assign_attributes :: "json_object \<Rightarrow> MessagesFormatter option" where
  "assign_attributes d =
     Option.bind (get_string d ''PRE_PROMPT'' None) (\<lambda>v1.
     Option.bind (get_string d ''SYS_PROMPT_START'' None) (\<lambda>v2.
     Option.bind (get_string d ''SYS_PROMPT_END'' None) (\<lambda>v3.
     Option.bind (get_string d ''USER_PROMPT_START'' None) (\<lambda>v4.
     Option.bind (get_string d ''USER_PROMPT_END'' None) (\<lambda>v5.
     Option.bind (get_string d ''ASSISTANT_PROMPT_START'' None) (\<lambda>v6.
     Option.bind (get_string d ''ASSISTANT_PROMPT_END'' None) (\<lambda>v7.
     Option.bind (get_string d ''FUNCTION_CALL_PROMPT_START'' None) (\<lambda>v8.
     Option.bind (get_string d ''FUNCTION_CALL_PROMPT_END'' None) (\<lambda>v9.
     Option.bind (get_bool d ''INCLUDE_SYS_PROMPT_IN_FIRST_USER_MESSAGE'' None) (\<lambda>v10.
     Option.bind (get_strings d ''DEFAULT_STOP_SEQUENCES'') (\<lambda>v11.
     Option.bind (get_bool d ''USE_USER_ROLE_FUNCTION_CALL_RESULT'' (Some True)) (\<lambda>v12.
     Option.bind (get_string d ''FUNCTION_PROMPT_START'' (Some [])) (\<lambda>v13.
     Option.bind (get_string d ''FUNCTION_PROMPT_END'' (Some [])) (\<lambda>v14.
     Option.bind (get_bool d ''STRIP_PROMPT'' (Some True)) (\<lambda>v15.
       Some \<lparr>PRE_PROMPT = v1, SYS_PROMPT_START = v2, SYS_PROMPT_END = v3,
             USER_PROMPT_START = v4, USER_PROMPT_END = v5, ASSISTANT_PROMPT_START = v6,
             ASSISTANT_PROMPT_END = v7, INCLUDE_SYS_PROMPT_IN_FIRST_USER_MESSAGE = v10,
             DEFAULT_STOP_SEQUENCES = v11, FUNCTION_CALL_PROMPT_START = v8,
             FUNCTION_CALL_PROMPT_END = v9, FUNCTION_PROMPT_START = v13,
             FUNCTION_PROMPT_END = v14, USE_USER_ROLE_FUNCTION_CALL_RESULT = v12,
             STRIP_PROMPT = v15, USE_FUNCTION_CALL_END = False\<rparr>)))))))))))))))"

text \<open>\<^verbatim>\<open>MessagesFormatter(**d)\<close>: a keyword that is no parameter of \<^verbatim>\<open>__init__\<close> raises
  TypeError when the arguments are bound, before the body runs; so does a missing
  parameter without default.\<close>

definition MessagesFormatter_init :: "json_object \<Rightarrow> py_error + MessagesFormatter" where
  "MessagesFormatter_init d =
     (if \<exists>k \<in> set (map fst d). k \<notin> set init_parameters then Inl TypeError
      else case assign_attributes d of None \<Rightarrow> Inl TypeError | Some f \<Rightarrow> Inr f)"

text \<open>The files that hold a saved formatter, by path. \<^verbatim>\<open>json.dump\<close> followed by
  \<^verbatim>\<open>json.load\<close> gives back a dictionary of strings, booleans and lists of strings as it
  was, so a file is kept as the dictionary written to it.\<close>

type_synonym files = "string \<rightharpoonup> json_object"

definition save :: "MessagesFormatter \<Rightarrow> string \<Rightarrow> files \<Rightarrow> files" where
  "save f file_path fs = fs(file_path \<mapsto> as_dict f)"

definition load_from_file :: "string \<Rightarrow> files \<Rightarrow> py_error + MessagesFormatter" where
  "load_from_file file_path fs =
     (case fs file_path of
        None \<Rightarrow> Inl FileNotFoundError
      | Some d \<Rightarrow> MessagesFormatter_init d)"

section \<open>Concrete inputs\<close>

text \<open>A new agent: nothing in any tier, nothing generated or sent yet.\<close>

definition new_agent :: agent where
  "new_agent =
     \<lparr>memory = \<lparr>event_queue = [], session_events = [], iam_content = [],
                last_modified = 0, ckv_count = 0\<rparr>,
      llm_messages = [], last_response = [], formatter_USE_FUNCTION_CALL_END = False,
      documentation = ''activate_message_mode, core_memory_append'',
      generations = [], sent_to_user = []\<rparr>"

text \<open>Modelled from the spec: the tool adapter of \<^verbatim>\<open>CoreMemoryStore.append\<close>
  (memory/memory\_tools.py): the text is appended to the core memory and
  \<^verbatim>\<open>last_modified\<close> moves on.\<close>

definition core_memory_append :: "string \<Rightarrow> tiers \<Rightarrow> string \<times> tiers" where
  "core_memory_append text m =
     (''Core memory updated.'',
      m\<lparr>iam_content := iam_content m @ text, last_modified := Suc (last_modified m)\<rparr>)"

definition memory_tools :: registry where
  "memory_tools = [''core_memory_append'' \<mapsto> core_memory_append]"

definition append_call :: "bool \<Rightarrow> completion" where
  "append_call hb =
     \<lparr>raw = ''{\"function\": \"core_memory_append\"}'',
      tool_call = Some \<lparr>fc_function = ''core_memory_append'', fc_params = ''a cave'',
                        fc_request_heartbeat = Some hb\<rparr>\<rparr>"

definition message_mode_call :: "bool option \<Rightarrow> completion" where
  "message_mode_call hb =
     \<lparr>raw = ''{\"function\": \"activate_message_mode\"}'',
      tool_call = Some \<lparr>fc_function = ''activate_message_mode'', fc_params = [],
                        fc_request_heartbeat = hb\<rparr>\<rparr>"

definition prose :: "string \<Rightarrow> completion" where
  "prose s = \<lparr>raw = s, tool_call = None\<rparr>"

text \<open>Three heartbeat-requesting calls, then one that does not.\<close>

definition chain_provider :: provider where
  "chain_provider i = (if i < 3 then append_call True else append_call False)"

text \<open>Every completion requests a heartbeat.\<close>

definition heartbeat_provider :: provider where
  "heartbeat_provider i = append_call True"

text \<open>The model answers in plain text.\<close>

definition text_provider :: provider where
  "text_provider i = prose ''Hi''"

text \<open>The model calls \<^verbatim>\<open>activate_message_mode\<close> asking for a heartbeat, then writes.\<close>

definition message_provider :: provider where
  "message_provider i =
     (if i = 0 then message_mode_call (Some True) else prose ''You enter the cave.'')"

definition chatml_formatter :: MessagesFormatter where
  "chatml_formatter =
     \<lparr>PRE_PROMPT = [], SYS_PROMPT_START = ''### Instructions:'', SYS_PROMPT_END = [CHR 0x0A],
      USER_PROMPT_START = ''### Elysia Thunderscribe:'', USER_PROMPT_END = [CHR 0x0A],
      ASSISTANT_PROMPT_START = ''### Game Master:'', ASSISTANT_PROMPT_END = [CHR 0x0A],
      INCLUDE_SYS_PROMPT_IN_FIRST_USER_MESSAGE = False,
      DEFAULT_STOP_SEQUENCES = [''### Player'', ''<|im_end|>''],
      FUNCTION_CALL_PROMPT_START = ''### Function Call:'', FUNCTION_CALL_PROMPT_END = [CHR 0x0A],
      FUNCTION_PROMPT_START = ''### Function Call Result:'', FUNCTION_PROMPT_END = [CHR 0x0A],
      USE_USER_ROLE_FUNCTION_CALL_RESULT = False, STRIP_PROMPT = True,
      USE_FUNCTION_CALL_END = False\<rparr>"

text \<open>The model never asks for a heartbeat.\<close>

definition yield_provider :: provider where
  "yield_provider i = append_call False"

text \<open>The model calls \<^verbatim>\<open>activate_message_mode\<close> asking for no heartbeat, then writes.\<close>

definition quiet_message_provider :: provider where
  "quiet_message_provider i =
     (if i = 0 then message_mode_call (Some False) else prose ''You enter the cave.'')"

text \<open>Calls of the tool \<open>t\<close>: the completions before position \<open>n\<close> request a heartbeat,
  the later ones do not.\<close>

definition heartbeats_until :: "string \<Rightarrow> nat \<Rightarrow> provider" where
  "heartbeats_until t n i =
     \<lparr>raw = ''{\"function\": \"'' @ t @ ''\"}'',
      tool_call = Some \<lparr>fc_function = t, fc_params = [],
                        fc_request_heartbeat = Some (i < n)\<rparr>\<rparr>"

text \<open>An agent with nothing in its event memory and two entries in its archival
  memory.\<close>

definition stocked_agent :: agent where
  "stocked_agent = new_agent\<lparr>memory := (memory new_agent)\<lparr>ckv_count := 2\<rparr>\<rparr>"




definition example_messages :: "nat message list" where
  "example_messages =
     [\<lparr>role = ''system'', content = Str ''You are the Game Master.''\<rparr>,
      \<lparr>role = ''user'', content = Str ''Hello''\<rparr>,
      \<lparr>role = ''assistant'', content = Str ''  {\"function\": \"x\"} ''\<rparr>,
      \<lparr>role = ''function'', content = Items [1, 2]\<rparr>,
      \<lparr>role = ''tool'', content = Items [3]\<rparr>]"

definition example_dumps :: "nat \<Rightarrow> string" where
  "example_dumps n = replicate n (CHR ''1'')"

section \<open>Observations of a turn\<close>

text \<open>The agent a pass of the loop leaves behind, however the loop goes on (\<open>None\<close>
  after an exception).\<close>

fun agent_of :: "step \<Rightarrow> agent option" where
  "agent_of (Continue (a, r)) = Some a"
| "agent_of (Break a) = Some a"
| "agent_of (Raise e) = None"

text \<open>A turn of \<^verbatim>\<open>get_response\<close> up to \<open>k\<close> passes through the loop body: how the
  loop was left by then, or the state it goes on with.\<close>

definition turn_steps :: "provider \<Rightarrow> registry \<Rightarrow> agent \<Rightarrow> string \<Rightarrow> nat \<Rightarrow> step" where
  "turn_steps prov reg a message k =
     (let (a2, query) = begin_turn message a in
      case generation_round prov reg query a2 of
        Inl e \<Rightarrow> Raise e
      | Inr st \<Rightarrow> loop_steps prov reg query k st)"

text \<open>The agent of a turn after \<open>k\<close> passes through the loop body.\<close>

definition state_after :: "provider \<Rightarrow> registry \<Rightarrow> agent \<Rightarrow> string \<Rightarrow> nat \<Rightarrow> agent option" where
  "state_after prov reg a message k = agent_of (turn_steps prov reg a message k)"

text \<open>For every generation so far: the \<^verbatim>\<open>imb_count\<close> and the \<^verbatim>\<open>ckv_count\<close> of its
  system prompt, and the number of events in the window rebuilt for it, which is the
  number of events in the log at that moment.\<close>

definition rendered_counts :: "agent \<Rightarrow> (nat \<times> nat \<times> nat) list" where
  "rendered_counts a =
     map (\<lambda>g. (sp_imb_count (g_system_prompt g), sp_ckv_count (g_system_prompt g),
               length (g_messages g))) (generations a)"


text \<open>The number of \<^verbatim>\<open>get_chat_response\<close> calls of a turn that returned, on an agent
  that had made none before.\<close>

definition turn_generations :: "provider \<Rightarrow> registry \<Rightarrow> agent \<Rightarrow> string \<Rightarrow> nat option" where
  "turn_generations prov reg a message =
     (case get_response prov reg a message of
        Some (Inr a') \<Rightarrow> Some (length (generations a'))
      | other \<Rightarrow> None)"

text \<open>The counts of the generations of a whole turn that returned.\<close>

definition turn_counts ::
  "provider \<Rightarrow> registry \<Rightarrow> agent \<Rightarrow> string \<Rightarrow> (nat \<times> nat \<times> nat) list option" where
  "turn_counts prov reg a message =
     (case get_response prov reg a message of
        Some (Inr a') \<Rightarrow> Some (rendered_counts a')
      | other \<Rightarrow> None)"

section \<open>Properties of the heartbeat loop\<close>

subsection \<open>The event log and the logs of the agent\<close>

lemma generations_add_event [simp]:
  "generations (add_event_to_queue ty c a) = generations a"
  by (simp add: add_event_to_queue_def)

lemma sent_add_event [simp]:
  "sent_to_user (add_event_to_queue ty c a) = sent_to_user a"
  by (simp add: add_event_to_queue_def)

lemma last_response_add_event [simp]:
  "last_response (add_event_to_queue ty c a) = last_response a"
  by (simp add: add_event_to_queue_def)

lemma event_queue_add_event [simp]:
  "event_queue (memory (add_event_to_queue ty c a)) = event_queue (memory a) @ [(ty, c)]"
  by (simp add: add_event_to_queue_def)

lemma generation_round_requests:
  assumes "requests reg (prov (length (generations a))) hb"
  shows "\<exists>a' r. generation_round prov reg query a = Inr (a', Calls [r])
            \<and> tr_request_heartbeat r = hb
            \<and> length (generations a') = Suc (length (generations a))"
  using assms
  by (auto simp: requests_def generation_round_def get_chat_response_def invoke_provider_def
        handle_function_call_def build_event_memory_context_def Let_def
        split: option.splits prod.splits)

lemma loop_body_heartbeat:
  assumes "tr_request_heartbeat r = Some True"
    and "requests reg (prov (length (generations a))) hb"
  shows "\<exists>a' r'. loop_body prov reg query (a, Calls [r]) = Continue (a', Calls [r'])
            \<and> tr_request_heartbeat r' = hb
            \<and> length (generations a') = Suc (length (generations a))"
proof -
  define a1 where "a1 = (if tr_function r \<noteq> activate_message_mode_name
                then add_event_to_queue FunctionMessage (tr_return_value r) a else a)"
  have g: "generations a1 = generations a" by (simp add: a1_def)
  from generation_round_requests[of reg prov a1 hb query] assms(2) g
  obtain a' r' where "generation_round prov reg query a1 = Inr (a', Calls [r'])"
    "tr_request_heartbeat r' = hb" "length (generations a') = Suc (length (generations a))"
    by auto
  with assms(1) show ?thesis by (simp add: a1_def Let_def)
qed

lemma loop_body_yield:
  assumes "tr_request_heartbeat r \<noteq> Some True"
  shows "\<exists>a'. loop_body prov reg query (a, Calls [r]) = Break a'
            \<and> generations a' = generations a"
  using assms by (simp add: Let_def)

lemma heartbeat_loop_Break:
  "loop_steps prov reg query k st = Break a \<Longrightarrow> heartbeat_loop prov reg query st = Some (Inr a)"
proof (induction k arbitrary: st)
  case 0
  then show ?case by simp
next
  case (Suc k)
  then show ?case
    by (subst heartbeat_loop.simps) (auto split: step.splits)
qed

lemma loop_steps_chain:
  assumes "\<forall>i<n. requests reg (prov (length (generations a) + i)) (Some True)"
    and "requests reg (prov (length (generations a) + n)) (Some False)"
    and "tr_request_heartbeat r = Some True"
  shows "\<exists>a'. loop_steps prov reg query (Suc (Suc n)) (a, Calls [r]) = Break a'
            \<and> length (generations a') = Suc (length (generations a) + n)"
  using assms
proof (induction n arbitrary: a r)
  case 0
  from loop_body_heartbeat[of r reg prov a "Some False" query] 0(2) 0(3)
  obtain a1 r1 where s1: "loop_body prov reg query (a, Calls [r]) = Continue (a1, Calls [r1])"
    "tr_request_heartbeat r1 = Some False" "length (generations a1) = Suc (length (generations a))"
    by auto
  from loop_body_yield[of r1 prov reg query a1] s1(2)
  obtain a2 where "loop_body prov reg query (a1, Calls [r1]) = Break a2"
    "generations a2 = generations a1" by auto
  with s1 show ?case by simp
next
  case (Suc n)
  from Suc.prems(1) have "requests reg (prov (length (generations a))) (Some True)"
    by (metis add.right_neutral zero_less_Suc)
  with loop_body_heartbeat[of r reg prov a "Some True" query] Suc.prems(3)
  obtain a1 r1 where s1: "loop_body prov reg query (a, Calls [r]) = Continue (a1, Calls [r1])"
    "tr_request_heartbeat r1 = Some True" "length (generations a1) = Suc (length (generations a))"
    by auto
  have "\<forall>i<n. requests reg (prov (length (generations a1) + i)) (Some True)"
    using Suc.prems(1) s1(3) by (metis Suc_less_eq add_Suc_shift)
  moreover have "requests reg (prov (length (generations a1) + n)) (Some False)"
    using Suc.prems(2) s1(3) by simp
  ultimately obtain a' where "loop_steps prov reg query (Suc (Suc n)) (a1, Calls [r1]) = Break a'"
    "length (generations a') = Suc (length (generations a1) + n)"
    using Suc.IH[of a1 r1] s1(2) by blast
  with s1 show ?case by simp
qed

text \<open>A chain of heartbeat rounds that ends with a call asking for none.\<close>

lemma get_response_chain:
  assumes "0 < N"
    and "\<forall>i<N - 1. requests reg (prov (length (generations a) + i)) (Some True)"
    and "requests reg (prov (length (generations a) + (N - 1))) (Some False)"
  shows "\<exists>a'. get_response prov reg a message = Some (Inr a')
            \<and> length (generations a') = length (generations a) + N"
proof -
  obtain a2 query where bt: "begin_turn message a = (a2, query)" by force
  then have g2: "generations a2 = generations a"
    by (auto simp: begin_turn_def Let_def)
  show ?thesis
  proof (cases "N - 1")
    case 0
    with assms(3) g2 have "requests reg (prov (length (generations a2))) (Some False)" by simp
    with generation_round_requests[of reg prov a2 "Some False" query]
    obtain a3 r where gr: "generation_round prov reg query a2 = Inr (a3, Calls [r])"
      "tr_request_heartbeat r = Some False" "length (generations a3) = Suc (length (generations a2))"
      by auto
    from loop_body_yield[of r prov reg query a3] gr(2)
    obtain a' where "loop_body prov reg query (a3, Calls [r]) = Break a'"
      "generations a' = generations a3" by auto
    then have "loop_steps prov reg query (Suc 0) (a3, Calls [r]) = Break a'" by simp
    from heartbeat_loop_Break[OF this]
    have "get_response prov reg a message = Some (Inr a')"
      by (simp add: get_response_def bt gr(1))
    moreover have "length (generations a') = length (generations a) + N"
      using \<open>generations a' = generations a3\<close> gr(3) g2 0 assms(1) by simp
    ultimately show ?thesis by blast
  next
    case (Suc n)
    then have N: "N = Suc (Suc n)" by simp
    from Suc assms(2) g2 have "requests reg (prov (length (generations a2))) (Some True)"
      by (metis add.right_neutral zero_less_Suc)
    with generation_round_requests[of reg prov a2 "Some True" query]
    obtain a3 r where gr: "generation_round prov reg query a2 = Inr (a3, Calls [r])"
      "tr_request_heartbeat r = Some True" "length (generations a3) = Suc (length (generations a2))"
      by auto
    have "\<forall>i<n. requests reg (prov (length (generations a3) + i)) (Some True)"
      using assms(2) Suc gr(3) g2 by (metis Suc_less_eq add_Suc_shift)
    moreover have "requests reg (prov (length (generations a3) + n)) (Some False)"
      using assms(3) gr(3) g2 unfolding N by simp
    ultimately obtain a' where st: "loop_steps prov reg query (Suc (Suc n)) (a3, Calls [r]) = Break a'"
      "length (generations a') = Suc (length (generations a3) + n)"
      using loop_steps_chain[of n reg prov a3 r query] gr(2) by blast
    from heartbeat_loop_Break[OF st(1)]
    have "get_response prov reg a message = Some (Inr a')"
      by (simp add: get_response_def bt gr(1))
    moreover have "length (generations a') = length (generations a) + N"
      using st(2) gr(3) g2 N by simp
    ultimately show ?thesis by blast
  qed
qed

text \<open>C1, as amended: when the first \<open>N - 1\<close> results of the provider are structured
  calls of registered tools other than \<^verbatim>\<open>activate_message_mode\<close> with
  \<^verbatim>\<open>request_heartbeat\<close> true and the \<open>N\<close>-th is such a call with \<^verbatim>\<open>request_heartbeat\<close>
  false, \<^verbatim>\<open>get_response\<close> returns to its caller, and it has called
  \<^verbatim>\<open>get_chat_response\<close> exactly \<open>N\<close> times.\<close>

theorem heartbeat_chain_generations:
  assumes "0 < N"
    and "\<forall>i<N - 1. requests reg (prov (length (generations a) + i)) (Some True)"
    and "requests reg (prov (length (generations a) + (N - 1))) (Some False)"
  shows "\<exists>a'. get_response prov reg a message = Some (Inr a')
            \<and> length (generations a') = length (generations a) + N"
  using assms by (rule get_response_chain)

theorem heartbeat_chain_generations_witness:
  "requests memory_tools (chain_provider 0) (Some True)
   \<and> requests memory_tools (chain_provider 1) (Some True)
   \<and> requests memory_tools (chain_provider 2) (Some True)
   \<and> requests memory_tools (chain_provider 3) (Some False)
   \<and> (\<exists>a'. get_response chain_provider memory_tools new_agent ''Hello'' = Some (Inr a')
            \<and> length (generations a') = 4)"
proof -
  have g: "length (generations new_agent) = 0" by (simp add: new_agent_def)
  have r: "requests memory_tools (chain_provider i) (Some (i < 3))" for i
    by (simp add: requests_def chain_provider_def append_call_def memory_tools_def
        activate_message_mode_name_def)
  have h1: "(0::nat) < 4" by simp
  have h2: "\<forall>i<4 - 1. requests memory_tools (chain_provider (length (generations new_agent) + i)) (Some True)"
  proof (intro allI impI)
    fix i :: nat
    assume "i < 4 - 1"
    then have "i < 3" by simp
    with r[of i] g show "requests memory_tools (chain_provider (length (generations new_agent) + i)) (Some True)"
      by simp
  qed
  have h3: "requests memory_tools (chain_provider (length (generations new_agent) + (4 - 1))) (Some False)"
    using r[of 3] g by simp
  from heartbeat_chain_generations[of 4 memory_tools chain_provider new_agent "''Hello''", OF h1 h2 h3]
  have "\<exists>a'. get_response chain_provider memory_tools new_agent ''Hello'' = Some (Inr a')
            \<and> length (generations a') = 4" using g by simp
  with r[of 0] r[of 1] r[of 2] r[of 3] show ?thesis by simp
qed

section \<open>The constructor and the formatter\<close>

text \<open>C6 (fails on the code): a \<^verbatim>\<open>Llama\<close> provider is rejected with the settings the
  message of the exception asks for, and with the settings left unset.\<close>

theorem llama_provider_rejected:
  "MemGptAgent_init Llama (Some LlamaLLMGenerationSettings) = Inl WrongSettingsForLlamaCppPython
   \<and> MemGptAgent_init Llama None = Inl WrongSettingsForLlamaCppPython"
  by (simp add: MemGptAgent_init_def)

text \<open>C9 (fails on the code): loading what \<^verbatim>\<open>save\<close> wrote raises TypeError, for every
  formatter: the saved dictionary holds \<^verbatim>\<open>USE_FUNCTION_CALL_END\<close>, which is no
  parameter of \<^verbatim>\<open>__init__\<close>.\<close>

theorem load_after_save_raises:
  "load_from_file file_path (save f file_path fs) = Inl TypeError"
  by (simp add: load_from_file_def save_def MessagesFormatter_init_def as_dict_def
      init_parameters_def)

subsection \<open>format\_messages\<close>

lemma format_message_rewritten:
  assumes "string_content m"
  shows "\<exists>s'. format_message dumps f s m = Inr (rewritten dumps f m, s')"
  using assms
  by (cases "content m")
     (auto simp: format_message_def rewritten_def string_content_def Let_def)

lemma format_message_unknown:
  "\<not> known_role m \<Longrightarrow> format_message dumps f s m = Inr (m, s)"
  by (simp add: format_message_def known_role_def)

lemma format_message_role:
  "format_message dumps f s m = Inr (m', s') \<Longrightarrow> role m' = role m"
  by (cases "content m")
     (auto simp: format_message_def Let_def split: if_splits)

lemma format_loop_rewritten:
  assumes "\<forall>m \<in> set ms. string_content m"
  shows "\<exists>s'. format_loop dumps f s ms = (map (rewritten dumps f) ms, Inr s')"
  using assms
proof (induction ms arbitrary: s)
  case Nil
  then show ?case by simp
next
  case (Cons m ms)
  then obtain s1 where s1: "format_message dumps f s m = Inr (rewritten dumps f m, s1)"
    using format_message_rewritten[of m dumps f s] by auto
  from Cons obtain s2 where "format_loop dumps f s1 ms = (map (rewritten dumps f) ms, Inr s2)"
    by force
  with s1 show ?case by simp
qed

lemma format_loop_roles:
  "map role (fst (format_loop dumps f s ms)) = map role ms"
proof (induction ms arbitrary: s)
  case Nil
  then show ?case by simp
next
  case (Cons m ms)
  show ?case
  proof (cases "format_message dumps f s m")
    case (Inl e)
    then show ?thesis by simp
  next
    case (Inr p)
    obtain m' s' where p: "p = (m', s')" by (cases p)
    with Inr have "role m' = role m" by (auto dest: format_message_role)
    with Inr p Cons.IH[of s'] show ?thesis
      by (simp add: case_prod_beta)
  qed
qed

lemma format_loop_skips:
  "snd (format_loop dumps f s (filter known_role ms)) = snd (format_loop dumps f s ms)"
proof (induction ms arbitrary: s)
  case Nil
  then show ?case by simp
next
  case (Cons m ms)
  show ?case
  proof (cases "known_role m")
    case True
    with Cons.IH show ?thesis
      by (auto simp: case_prod_beta split: sum.splits)
  next
    case False
    with Cons.IH[of s] show ?thesis
      by (simp add: format_message_unknown case_prod_beta)
  qed
qed

text \<open>C10: on messages whose content is a string wherever the formatter needs one,
  \<^verbatim>\<open>format_messages\<close> raises nothing and leaves the caller's list rewritten entry by
  entry as the claim says (assistant entries stripped under \<^verbatim>\<open>STRIP_PROMPT\<close>, the list
  of a function entry joined, all else as it was); every role stays; and entries of
  any other role are skipped, so that the result is the one of the list without them.\<close>

theorem format_messages_in_place:
  assumes "\<forall>m \<in> set msgs. string_content m"
  shows "fst (format_messages dumps f msgs) = map (rewritten dumps f) msgs
       \<and> (\<exists>r. snd (format_messages dumps f msgs) = Inr r)
       \<and> map role (fst (format_messages dumps f msgs)) = map role msgs
       \<and> snd (format_messages dumps f (filter known_role msgs))
           = snd (format_messages dumps f msgs)"
proof -
  let ?s0 = "\<lparr>formatted_messages = PRE_PROMPT f, last_role = ''assistant'',
               no_user_prompt_start = False\<rparr>"
  from format_loop_rewritten[OF assms, of dumps f ?s0]
  obtain s' where l: "format_loop dumps f ?s0 msgs = (map (rewritten dumps f) msgs, Inr s')" ..
  have 1: "fst (format_messages dumps f msgs) = map (rewritten dumps f) msgs"
    by (simp add: format_messages_def l)
  have 2: "\<exists>r. snd (format_messages dumps f msgs) = Inr r"
    by (simp add: format_messages_def l)
  have 3: "map role (fst (format_messages dumps f msgs)) = map role msgs"
    using format_loop_roles[of dumps f ?s0 msgs]
    by (simp add: format_messages_def case_prod_beta)
  have 4: "snd (format_messages dumps f (filter known_role msgs))
           = snd (format_messages dumps f msgs)"
    using format_loop_skips[of dumps f ?s0 msgs]
    by (simp add: format_messages_def case_prod_beta)
  from 1 2 3 4 show ?thesis by blast
qed

theorem format_messages_in_place_witness:
  "fst (format_messages example_dumps chatml_formatter example_messages)
     = [\<lparr>role = ''system'', content = Str ''You are the Game Master.''\<rparr>,
        \<lparr>role = ''user'', content = Str ''Hello''\<rparr>,
        \<lparr>role = ''assistant'', content = Str ''{\"function\": \"x\"}''\<rparr>,
        \<lparr>role = ''function'', content = Str [CHR ''1'', CHR 0x0A, CHR ''1'', CHR ''1'']\<rparr>,
        \<lparr>role = ''tool'', content = Items [3]\<rparr>]
   \<and> (\<exists>r. snd (format_messages example_dumps chatml_formatter example_messages) = Inr r)"
proof -
  have h: "\<forall>m \<in> set example_messages. string_content m"
    by (simp add: example_messages_def string_content_def)
  have sp: "strip ''  {\"function\": \"x\"} '' = ''{\"function\": \"x\"}''"
    by (simp add: strip_def py_isspace_def)
  have "map (rewritten example_dumps chatml_formatter) example_messages
     = [\<lparr>role = ''system'', content = Str ''You are the Game Master.''\<rparr>,
        \<lparr>role = ''user'', content = Str ''Hello''\<rparr>,
        \<lparr>role = ''assistant'', content = Str ''{\"function\": \"x\"}''\<rparr>,
        \<lparr>role = ''function'', content = Str [CHR ''1'', CHR 0x0A, CHR ''1'', CHR ''1'']\<rparr>,
        \<lparr>role = ''tool'', content = Items [3]\<rparr>]"
    by (simp add: example_messages_def rewritten_def chatml_formatter_def sp example_dumps_def
        numeral_2_eq_2)
  with format_messages_in_place[OF h, of example_dumps chatml_formatter] show ?thesis by simp
qed

section \<open>Message mode, plain text and the prompt\<close>

lemma generation_round_message_mode:
  assumes "tool_call (prov (length (generations a))) = Some c"
    and "fc_function c = activate_message_mode_name"
  shows "\<exists>a'. generation_round prov reg query a =
            Inr (a', Calls [\<lparr>tr_function = activate_message_mode_name,
                              tr_return_value = ''Message mode activated.'',
                              tr_request_heartbeat = None\<rparr>])
          \<and> event_queue (memory a') = event_queue (memory a)
                @ [(AgentMessage, raw (prov (length (generations a)))),
                   (FunctionMessage, ''Message mode activated.''),
                   (AgentMessage, raw (prov (Suc (length (generations a)))))]
          \<and> sent_to_user a' = sent_to_user a @ [raw (prov (Suc (length (generations a))))]
          \<and> map g_function_tool_registry (generations a')
                = map g_function_tool_registry (generations a) @ [True, False]"
  using assms
  by (simp add: generation_round_def get_chat_response_def invoke_provider_def
      handle_function_call_def activate_message_mode_run_def build_event_memory_context_def
      query_all_def send_message_to_user_def add_event_to_queue_def Let_def)

lemma generation_round_text:
  assumes "tool_call (prov (length (generations a))) = None"
  shows "\<exists>a'. generation_round prov reg query a = Inr (a', Text (raw (prov (length (generations a)))))
          \<and> event_queue (memory a') = event_queue (memory a)
                @ [(AgentMessage, raw (prov (length (generations a))))]
          \<and> sent_to_user a' = sent_to_user a
          \<and> length (generations a') = Suc (length (generations a))"
  using assms
  by (simp add: generation_round_def get_chat_response_def invoke_provider_def
      handle_function_call_def build_event_memory_context_def add_event_to_queue_def Let_def)

lemma loop_steps_text:
  "\<exists>a'. loop_steps prov reg query k (a, Text (c # cs)) = Continue (a', Text (c # cs))
        \<and> event_queue (memory a') = event_queue (memory a) @ replicate (2 * k) (FunctionMessage, c # cs)
        \<and> sent_to_user a' = sent_to_user a
        \<and> generations a' = generations a"
proof (induction k arbitrary: a)
  case 0
  then show ?case by simp
next
  case (Suc k)
  define a2 where "a2 = add_event_to_queue FunctionMessage (c # cs)
                          (add_event_to_queue FunctionMessage (c # cs) a)"
  from Suc[of a2] obtain a' where
    "loop_steps prov reg query k (a2, Text (c # cs)) = Continue (a', Text (c # cs))"
    "event_queue (memory a') = event_queue (memory a2) @ replicate (2 * k) (FunctionMessage, c # cs)"
    "sent_to_user a' = sent_to_user a2" "generations a' = generations a2" by blast
  then show ?case
    by (simp add: a2_def Let_def)
qed

lemma heartbeat_loop_Some:
  assumes "heartbeat_loop prov reg query st = Some y"
  shows "\<exists>k. left_by (loop_steps prov reg query k st) y"
proof (rule heartbeat_loop.raw_induct
    [where P = "\<lambda>prov reg query st y. \<exists>k. left_by (loop_steps prov reg query k st) y", OF _ assms])
  fix f prov reg query st y
  assume IH: "\<And>prov reg query st y. f prov reg query st = Some y \<Longrightarrow>
                 \<exists>k. left_by (loop_steps prov reg query k st) y"
  assume eq: "(case loop_body prov reg query st of
                 Continue st' \<Rightarrow> f prov reg query st'
               | Break a \<Rightarrow> Some (Inr a)
               | Raise e \<Rightarrow> Some (Inl e)) = Some (y :: py_error + agent)"
  show "\<exists>k. left_by (loop_steps prov reg query k st) y"
  proof (cases "loop_body prov reg query st")
    case (Continue st')
    with eq have "f prov reg query st' = Some y" by simp
    from IH[OF this] obtain k where "left_by (loop_steps prov reg query k st') y" ..
    with Continue have "left_by (loop_steps prov reg query (Suc k) st) y" by simp
    then show ?thesis ..
  next
    case (Break a)
    with eq have "left_by (loop_steps prov reg query (Suc 0) st) y"
      by (auto simp: left_by_def)
    then show ?thesis ..
  next
    case (Raise e)
    with eq have "left_by (loop_steps prov reg query (Suc 0) st) y"
      by (auto simp: left_by_def)
    then show ?thesis ..
  qed
qed

lemma heartbeat_loop_None:
  assumes "\<And>k. \<exists>st'. loop_steps prov reg query k st = Continue st'"
  shows "heartbeat_loop prov reg query st = None"
proof (rule ccontr)
  assume "heartbeat_loop prov reg query st \<noteq> None"
  then obtain y where "heartbeat_loop prov reg query st = Some y" by auto
  from heartbeat_loop_Some[OF this] obtain k where "left_by (loop_steps prov reg query k st) y" ..
  with assms[of k] show False by (auto simp: left_by_def split: sum.splits)
qed

lemma begin_turn_eq:
  "begin_turn message a =
     (add_event_to_queue UserMessage message (a\<lparr>formatter_USE_FUNCTION_CALL_END := True\<rparr>),
      session_events (memory a))"
  by (simp add: begin_turn_def query_all_def Let_def add_event_to_queue_def)

text \<open>C3: whatever heartbeat the call of \<^verbatim>\<open>activate_message_mode\<close> asks for, its
  dispatch makes exactly one nested generation (the one call without the tool registry
  after the dispatching call), its result carries no heartbeat request, and the loop
  body leaves the loop at once: in any round of the loop, and so in a turn whose
  first completion is that call.\<close>

theorem message_mode_ends_chain:
  assumes "tool_call (prov (length (generations a))) = Some c"
    and "fc_function c = activate_message_mode_name"
  shows "(\<exists>a' r. generation_round prov reg query a = Inr (a', Calls [r])
            \<and> tr_request_heartbeat r = None
            \<and> map g_function_tool_registry (generations a')
                 = map g_function_tool_registry (generations a) @ [True, False]
            \<and> loop_body prov reg query (a', Calls [r]) = Break a'
            \<and> heartbeat_loop prov reg query (a', Calls [r]) = Some (Inr a'))
       \<and> (\<exists>a'. get_response prov reg a message = Some (Inr a')
            \<and> map g_function_tool_registry (generations a')
                 = map g_function_tool_registry (generations a) @ [True, False])"
proof -
  have round: "\<exists>a' r. generation_round prov reg q b = Inr (a', Calls [r])
            \<and> tr_request_heartbeat r = None
            \<and> map g_function_tool_registry (generations a')
                 = map g_function_tool_registry (generations b) @ [True, False]
            \<and> loop_body prov reg q (a', Calls [r]) = Break a'
            \<and> heartbeat_loop prov reg q (a', Calls [r]) = Some (Inr a')"
    if "generations b = generations a" for b q
  proof -
    from that assms(1) have "tool_call (prov (length (generations b))) = Some c" by simp
    from generation_round_message_mode[of prov b c reg q, OF this assms(2)]
    obtain a' where a': "generation_round prov reg q b =
            Inr (a', Calls [\<lparr>tr_function = activate_message_mode_name,
                              tr_return_value = ''Message mode activated.'',
                              tr_request_heartbeat = None\<rparr>])"
      "map g_function_tool_registry (generations a')
                = map g_function_tool_registry (generations b) @ [True, False]" by blast
    let ?r = "\<lparr>tr_function = activate_message_mode_name,
                 tr_return_value = ''Message mode activated.'',
                 tr_request_heartbeat = None\<rparr>"
    have b: "loop_body prov reg q (a', Calls [?r]) = Break a'" by simp
    then have "loop_steps prov reg q (Suc 0) (a', Calls [?r]) = Break a'" by simp
    from heartbeat_loop_Break[OF this] a' b show ?thesis by auto
  qed
  from round[of a query] have 1: "\<exists>a' r. generation_round prov reg query a = Inr (a', Calls [r])
            \<and> tr_request_heartbeat r = None
            \<and> map g_function_tool_registry (generations a')
                 = map g_function_tool_registry (generations a) @ [True, False]
            \<and> loop_body prov reg query (a', Calls [r]) = Break a'
            \<and> heartbeat_loop prov reg query (a', Calls [r]) = Some (Inr a')" by simp
  obtain a2 q where bt: "begin_turn message a = (a2, q)" by force
  then have "generations a2 = generations a" by (auto simp: begin_turn_eq)
  from round[OF this, of q] bt this
  have 2: "\<exists>a'. get_response prov reg a message = Some (Inr a')
            \<and> map g_function_tool_registry (generations a')
                 = map g_function_tool_registry (generations a) @ [True, False]"
    by (auto simp: get_response_def)
  from 1 2 show ?thesis by blast
qed

theorem message_mode_ends_chain_witness:
  "tool_call (message_provider 0)
     = Some \<lparr>fc_function = ''activate_message_mode'', fc_params = [],
             fc_request_heartbeat = Some True\<rparr>
   \<and> (\<exists>a'. get_response message_provider memory_tools new_agent ''Hello'' = Some (Inr a')
          \<and> map g_function_tool_registry (generations a') = [True, False])"
proof -
  have g: "generations new_agent = []" by (simp add: new_agent_def)
  have h1: "tool_call (message_provider (length (generations new_agent)))
     = Some \<lparr>fc_function = ''activate_message_mode'', fc_params = [],
             fc_request_heartbeat = Some True\<rparr>"
    by (simp add: g message_provider_def message_mode_call_def)
  have h2: "fc_function \<lparr>fc_function = ''activate_message_mode'', fc_params = [],
             fc_request_heartbeat = Some True\<rparr> = activate_message_mode_name"
    by (simp add: activate_message_mode_name_def)
  from message_mode_ends_chain[where prov = message_provider and a = new_agent
      and reg = memory_tools and query = "[]" and message = "''Hello''", OF h1 h2] h1 g
  show ?thesis by simp
qed

text \<open>C7: when \<^verbatim>\<open>activate_message_mode\<close> is dispatched, the prose of its nested
  generation (the completion after the call) is the content of an AgentMessage event
  appended to the event log, after the call's own AgentMessage and FunctionMessage
  events, and it is given to \<^verbatim>\<open>send_message_to_user\<close>: in any round, and so in a turn
  whose first completion is the call.\<close>

theorem message_mode_prose:
  assumes "tool_call (prov (length (generations a))) = Some c"
    and "fc_function c = activate_message_mode_name"
  shows "(\<exists>a' r. generation_round prov reg query a = Inr (a', r)
            \<and> event_queue (memory a') = event_queue (memory a)
                  @ [(AgentMessage, raw (prov (length (generations a)))),
                     (FunctionMessage, ''Message mode activated.''),
                     (AgentMessage, raw (prov (Suc (length (generations a)))))]
            \<and> sent_to_user a' = sent_to_user a @ [raw (prov (Suc (length (generations a))))])
       \<and> (\<exists>a'. get_response prov reg a message = Some (Inr a')
            \<and> event_queue (memory a') = event_queue (memory a)
                  @ [(UserMessage, message),
                     (AgentMessage, raw (prov (length (generations a)))),
                     (FunctionMessage, ''Message mode activated.''),
                     (AgentMessage, raw (prov (Suc (length (generations a)))))]
            \<and> sent_to_user a' = sent_to_user a @ [raw (prov (Suc (length (generations a))))])"
proof -
  let ?r = "\<lparr>tr_function = activate_message_mode_name,
               tr_return_value = ''Message mode activated.'',
               tr_request_heartbeat = None\<rparr>"
  from generation_round_message_mode[of prov a c reg query, OF assms]
  have 1: "\<exists>a' r. generation_round prov reg query a = Inr (a', r)
            \<and> event_queue (memory a') = event_queue (memory a)
                  @ [(AgentMessage, raw (prov (length (generations a)))),
                     (FunctionMessage, ''Message mode activated.''),
                     (AgentMessage, raw (prov (Suc (length (generations a)))))]
            \<and> sent_to_user a' = sent_to_user a @ [raw (prov (Suc (length (generations a))))]"
    by blast
  define a2 where "a2 = add_event_to_queue UserMessage message
                          (a\<lparr>formatter_USE_FUNCTION_CALL_END := True\<rparr>)"
  define q where "q = session_events (memory a)"
  have bt: "begin_turn message a = (a2, q)" by (simp add: begin_turn_eq a2_def q_def)
  have g2: "generations a2 = generations a" "sent_to_user a2 = sent_to_user a"
    "event_queue (memory a2) = event_queue (memory a) @ [(UserMessage, message)]"
    by (simp_all add: a2_def add_event_to_queue_def)
  from assms(1) g2(1) have "tool_call (prov (length (generations a2))) = Some c" by simp
  from generation_round_message_mode[of prov a2 c reg q, OF this assms(2)]
  obtain a' where a': "generation_round prov reg q a2 = Inr (a', Calls [?r])"
    "event_queue (memory a') = event_queue (memory a2)
                @ [(AgentMessage, raw (prov (length (generations a2)))),
                   (FunctionMessage, ''Message mode activated.''),
                   (AgentMessage, raw (prov (Suc (length (generations a2)))))]"
    "sent_to_user a' = sent_to_user a2 @ [raw (prov (Suc (length (generations a2))))]"
    by blast
  have "loop_steps prov reg q (Suc 0) (a', Calls [?r]) = Break a'" by simp
  from heartbeat_loop_Break[OF this]
  have "get_response prov reg a message = Some (Inr a')"
    by (simp add: get_response_def bt a'(1))
  with a'(2,3) g2 have 2: "\<exists>a'. get_response prov reg a message = Some (Inr a')
            \<and> event_queue (memory a') = event_queue (memory a)
                  @ [(UserMessage, message),
                     (AgentMessage, raw (prov (length (generations a)))),
                     (FunctionMessage, ''Message mode activated.''),
                     (AgentMessage, raw (prov (Suc (length (generations a)))))]
            \<and> sent_to_user a' = sent_to_user a @ [raw (prov (Suc (length (generations a))))]"
    by simp
  from 1 2 show ?thesis by blast
qed

theorem message_mode_prose_witness:
  "\<exists>a'. get_response message_provider memory_tools new_agent ''Hello'' = Some (Inr a')
      \<and> event_queue (memory a')
           = [(UserMessage, ''Hello''),
              (AgentMessage, ''{\"function\": \"activate_message_mode\"}''),
              (FunctionMessage, ''Message mode activated.''),
              (AgentMessage, ''You enter the cave.'')]
      \<and> sent_to_user a' = [''You enter the cave.'']"
proof -
  have g: "generations new_agent = []" "event_queue (memory new_agent) = []"
    "sent_to_user new_agent = []" by (simp_all add: new_agent_def)
  have h1: "tool_call (message_provider (length (generations new_agent)))
     = Some \<lparr>fc_function = ''activate_message_mode'', fc_params = [],
             fc_request_heartbeat = Some True\<rparr>"
    by (simp add: g message_provider_def message_mode_call_def)
  have h2: "fc_function \<lparr>fc_function = ''activate_message_mode'', fc_params = [],
             fc_request_heartbeat = Some True\<rparr> = activate_message_mode_name"
    by (simp add: activate_message_mode_name_def)
  have r: "raw (message_provider 0) = ''{\"function\": \"activate_message_mode\"}''"
    "raw (message_provider (Suc 0)) = ''You enter the cave.''"
    by (simp_all add: message_provider_def message_mode_call_def prose_def)
  from message_mode_prose[where prov = message_provider and a = new_agent
      and reg = memory_tools and query = "[]" and message = "''Hello''", OF h1 h2] g r
  show ?thesis by simp
qed

text \<open>C2, as amended: on a plain-text result (a non-empty string) the round has appended
  an AgentMessage event with the raw output, and from the first pass of the loop body
  on a FunctionMessage event with the text follows it in the log; the text is never
  given to \<^verbatim>\<open>send_message_to_user\<close> and no further generation is made for it.\<close>

theorem plain_text_round:
  assumes "tool_call (prov (length (generations a))) = None"
    and "raw (prov (length (generations a))) = c # cs"
  shows "\<exists>a'. generation_round prov reg query a = Inr (a', Text (c # cs))
          \<and> event_queue (memory a') = event_queue (memory a) @ [(AgentMessage, c # cs)]
          \<and> (\<forall>k. \<exists>a'' rest.
                 agent_of (loop_steps prov reg query (Suc k) (a', Text (c # cs))) = Some a''
               \<and> event_queue (memory a'')
                    = event_queue (memory a') @ (FunctionMessage, c # cs) # rest
               \<and> sent_to_user a'' = sent_to_user a
               \<and> generations a'' = generations a')"
proof -
  from generation_round_text[of prov a reg query, OF assms(1)] assms(2)
  obtain a' where a': "generation_round prov reg query a = Inr (a', Text (c # cs))"
    "event_queue (memory a') = event_queue (memory a) @ [(AgentMessage, c # cs)]"
    "sent_to_user a' = sent_to_user a" by auto
  have "\<exists>a'' rest.
                 agent_of (loop_steps prov reg query (Suc k) (a', Text (c # cs))) = Some a''
               \<and> event_queue (memory a'')
                    = event_queue (memory a') @ (FunctionMessage, c # cs) # rest
               \<and> sent_to_user a'' = sent_to_user a
               \<and> generations a'' = generations a'" for k
  proof -
    from loop_steps_text[of prov reg query "Suc k" a' c cs]
    obtain a'' where "loop_steps prov reg query (Suc k) (a', Text (c # cs)) = Continue (a'', Text (c # cs))"
      "event_queue (memory a'') = event_queue (memory a') @ replicate (2 * Suc k) (FunctionMessage, c # cs)"
      "sent_to_user a'' = sent_to_user a'" "generations a'' = generations a'" by blast
    with a'(3) show ?thesis by simp
  qed
  with a' show ?thesis by blast
qed

theorem plain_text_round_witness:
  "tool_call (text_provider 0) = None \<and> raw (text_provider 0) = ''Hi''
   \<and> (\<exists>a'. generation_round text_provider memory_tools [] new_agent = Inr (a', Text ''Hi'')
          \<and> event_queue (memory a') = [(AgentMessage, ''Hi'')]
          \<and> (\<exists>a'' rest.
                 agent_of (loop_steps text_provider memory_tools [] (Suc 0) (a', Text ''Hi'')) = Some a''
               \<and> event_queue (memory a'') = [(AgentMessage, ''Hi''), (FunctionMessage, ''Hi'')] @ rest
               \<and> sent_to_user a'' = []
               \<and> generations a'' = generations a'))"
proof -
  have g: "generations new_agent = []" "event_queue (memory new_agent) = []"
    "sent_to_user new_agent = []" by (simp_all add: new_agent_def)
  have h1: "tool_call (text_provider (length (generations new_agent))) = None"
    by (simp add: text_provider_def prose_def)
  have h2: "raw (text_provider (length (generations new_agent))) = CHR ''H'' # ''i''"
    by (simp add: text_provider_def prose_def)
  from plain_text_round[where prov = text_provider and a = new_agent and reg = memory_tools
      and query = "[]", OF h1 h2] g
  obtain a' where a': "generation_round text_provider memory_tools [] new_agent = Inr (a', Text ''Hi'')"
    "event_queue (memory a') = [(AgentMessage, ''Hi'')]"
    "\<forall>k. \<exists>a'' rest.
         agent_of (loop_steps text_provider memory_tools [] (Suc k) (a', Text ''Hi'')) = Some a''
       \<and> event_queue (memory a'') = event_queue (memory a') @ (FunctionMessage, ''Hi'') # rest
       \<and> sent_to_user a'' = []
       \<and> generations a'' = generations a'" by auto
  from a'(3)[rule_format, of 0] a'(2)
  have "\<exists>a'' rest.
                 agent_of (loop_steps text_provider memory_tools [] (Suc 0) (a', Text ''Hi'')) = Some a''
               \<and> event_queue (memory a'') = [(AgentMessage, ''Hi''), (FunctionMessage, ''Hi'')] @ rest
               \<and> sent_to_user a'' = []
               \<and> generations a'' = generations a'" by simp
  with a'(1,2) h1 h2 g show ?thesis
    by (auto simp: text_provider_def prose_def)
qed

text \<open>On a plain-text result the loop is never left.\<close>

lemma get_response_text_None:
  assumes "tool_call (prov (length (generations a))) = None"
    and "raw (prov (length (generations a))) = c # cs"
  shows "get_response prov reg a message = None"
proof -
  define a2 where "a2 = add_event_to_queue UserMessage message
                          (a\<lparr>formatter_USE_FUNCTION_CALL_END := True\<rparr>)"
  define q where "q = session_events (memory a)"
  have bt: "begin_turn message a = (a2, q)" by (simp add: begin_turn_eq a2_def q_def)
  have g2: "generations a2 = generations a" by (simp add: a2_def)
  with assms have "tool_call (prov (length (generations a2))) = None"
    "raw (prov (length (generations a2))) = c # cs" by simp_all
  with generation_round_text[of prov a2 reg q]
  obtain a' where a': "generation_round prov reg q a2 = Inr (a', Text (c # cs))" by auto
  have "heartbeat_loop prov reg q (a', Text (c # cs)) = None"
  proof (rule heartbeat_loop_None)
    fix k
    from loop_steps_text[of prov reg q k a' c cs]
    show "\<exists>st'. loop_steps prov reg q k (a', Text (c # cs)) = Continue st'" by blast
  qed
  then show ?thesis by (simp add: get_response_def bt a')
qed

text \<open>C2 as stated fails: with a model that answers \<^verbatim>\<open>Hi\<close> the turn never returns to
  its caller, and after three passes of the loop nothing has been sent to the user.\<close>

theorem plain_text_never_returns:
  "get_response text_provider memory_tools new_agent ''Hello'' = None
   \<and> map_option sent_to_user (state_after text_provider memory_tools new_agent ''Hello'' 3) = Some []"
proof -
  have "get_response text_provider memory_tools new_agent ''Hello'' = None"
    by (rule get_response_text_None[where c = "CHR ''H''" and cs = "''i''"])
       (simp_all add: text_provider_def prose_def)
  moreover have "map_option sent_to_user (state_after text_provider memory_tools new_agent ''Hello'' 3) = Some []"
    by (simp add: state_after_def turn_steps_def begin_turn_eq generation_round_def get_chat_response_def
        invoke_provider_def handle_function_call_def text_provider_def prose_def new_agent_def
        build_event_memory_context_def add_event_to_queue_def Let_def numeral_3_eq_3)
  ultimately show ?thesis by simp
qed

section \<open>Whole turns\<close>

text \<open>A turn whose loop is left by \<^verbatim>\<open>break\<close> after \<open>k\<close> passes returns that agent.\<close>

lemma get_response_turn_steps:
  assumes "turn_steps prov reg a message k = Break a'"
  shows "get_response prov reg a message = Some (Inr a')"
proof -
  obtain a2 q where bt: "begin_turn message a = (a2, q)" by force
  show ?thesis
  proof (cases "generation_round prov reg q a2")
    case (Inl e)
    with assms bt show ?thesis by (simp add: turn_steps_def)
  next
    case (Inr st)
    with assms bt have "loop_steps prov reg q k st = Break a'" by (simp add: turn_steps_def)
    from heartbeat_loop_Break[OF this] bt Inr show ?thesis by (simp add: get_response_def)
  qed
qed

text \<open>A turn that returns has left its loop by \<^verbatim>\<open>break\<close> after some number of passes.\<close>

lemma turn_steps_get_response:
  assumes "get_response prov reg a message = Some (Inr a')"
  shows "\<exists>k. turn_steps prov reg a message k = Break a'"
proof -
  obtain a2 q where bt: "begin_turn message a = (a2, q)" by force
  show ?thesis
  proof (cases "generation_round prov reg q a2")
    case (Inl e)
    with assms bt show ?thesis by (simp add: get_response_def)
  next
    case (Inr st)
    with assms bt have "heartbeat_loop prov reg q st = Some (Inr a')"
      by (simp add: get_response_def)
    from heartbeat_loop_Some[OF this] obtain k where "loop_steps prov reg q k st = Break a'"
      by (auto simp: left_by_def)
    with bt Inr have "turn_steps prov reg a message k = Break a'" by (simp add: turn_steps_def)
    then show ?thesis ..
  qed
qed

lemma turn_steps_Suc:
  "turn_steps prov reg a message k = Continue st \<Longrightarrow>
   turn_steps prov reg a message (Suc k)
     = loop_body prov reg (snd (begin_turn message a)) st"
proof -
  have ls: "loop_steps prov reg q k st0 = Continue st \<Longrightarrow>
            loop_steps prov reg q (Suc k) st0 = loop_body prov reg q st" for q st0
  proof (induction k arbitrary: st0)
    case 0
    then show ?case by (simp split: step.splits)
  next
    case (Suc k)
    then show ?case by (cases "loop_body prov reg q st0") auto
  qed
  assume a: "turn_steps prov reg a message k = Continue st"
  obtain a2 q where bt: "begin_turn message a = (a2, q)" by force
  show ?thesis
  proof (cases "generation_round prov reg q a2")
    case (Inl e)
    with a bt show ?thesis by (simp add: turn_steps_def)
  next
    case (Inr st0)
    with a bt have "loop_steps prov reg q k st0 = Continue st" by (simp add: turn_steps_def)
    from ls[OF this] bt Inr show ?thesis by (simp add: turn_steps_def)
  qed
qed

text \<open>The loop is left by \<^verbatim>\<open>break\<close> only on a structured result that asks for no
  heartbeat.\<close>

lemma loop_body_Break:
  assumes "loop_body prov reg q st = Break a'"
  shows "\<exists>b r rs. st = (b, Calls (r # rs)) \<and> tr_request_heartbeat r \<noteq> Some True"
proof -
  obtain b res where st: "st = (b, res)" by (cases st)
  show ?thesis
  proof (cases res)
    case (Text s)
    with assms st show ?thesis by (cases s) (simp_all add: Let_def)
  next
    case (Calls rs)
    with assms st show ?thesis
      by (cases rs) (auto simp: Let_def split: if_splits sum.splits)
  qed
qed

lemma turn_steps_last_pass:
  assumes "turn_steps prov reg a message k = Break a'"
  shows "\<exists>j b r rs. turn_steps prov reg a message j = Continue (b, Calls (r # rs))
           \<and> tr_request_heartbeat r \<noteq> Some True
           \<and> turn_steps prov reg a message (Suc j) = Break a'"
  using assms
proof (induction k)
  case 0
  obtain a2 q where bt: "begin_turn message a = (a2, q)" by force
  with 0 show ?case
    by (cases "generation_round prov reg q a2") (simp_all add: turn_steps_def)
next
  case (Suc k)
  show ?case
  proof (cases "turn_steps prov reg a message k")
    case (Continue st)
    from turn_steps_Suc[OF this] Suc.prems
    have lb: "loop_body prov reg (snd (begin_turn message a)) st = Break a'" by simp
    from loop_body_Break[OF this] obtain b r rs where
      "st = (b, Calls (r # rs))" "tr_request_heartbeat r \<noteq> Some True" by blast
    with Continue Suc.prems show ?thesis by blast
  next
    case (Break b)
    have "turn_steps prov reg a message (Suc k) = Break b"
    proof -
      have ls: "loop_steps prov reg q k st0 = Break b \<Longrightarrow>
            loop_steps prov reg q (Suc k) st0 = Break b" for q st0
      proof (induction k arbitrary: st0)
        case 0
        then show ?case by simp
      next
        case (Suc k)
        then show ?case by (cases "loop_body prov reg q st0") auto
      qed
      obtain a2 q where bt: "begin_turn message a = (a2, q)" by force
      show ?thesis
      proof (cases "generation_round prov reg q a2")
        case (Inl e)
        with Break bt show ?thesis by (simp add: turn_steps_def)
      next
        case (Inr st0)
        with Break bt have "loop_steps prov reg q k st0 = Break b" by (simp add: turn_steps_def)
        from ls[OF this] bt Inr show ?thesis by (simp add: turn_steps_def)
      qed
    qed
    with Suc.prems have "b = a'" by simp
    with Break Suc.IH show ?thesis by simp
  next
    case (Raise e)
    have "turn_steps prov reg a message (Suc k) = Raise e"
    proof -
      have ls: "loop_steps prov reg q k st0 = Raise e \<Longrightarrow>
            loop_steps prov reg q (Suc k) st0 = Raise e" for q st0
      proof (induction k arbitrary: st0)
        case 0
        then show ?case by simp
      next
        case (Suc k)
        then show ?case by (cases "loop_body prov reg q st0") auto
      qed
      obtain a2 q where bt: "begin_turn message a = (a2, q)" by force
      show ?thesis
      proof (cases "generation_round prov reg q a2")
        case (Inl e')
        with Raise bt show ?thesis by (simp add: turn_steps_def)
      next
        case (Inr st0)
        with Raise bt have "loop_steps prov reg q k st0 = Raise e" by (simp add: turn_steps_def)
        from ls[OF this] bt Inr show ?thesis by (simp add: turn_steps_def)
      qed
    qed
    with Suc.prems show ?thesis by simp
  qed
qed

lemmas turn_defs =
  turn_steps_def begin_turn_eq generation_round_def get_chat_response_def invoke_provider_def
  handle_function_call_def append_call_def memory_tools_def core_memory_append_def
  new_agent_def generate_prompt_def rendered_counts_def activate_message_mode_name_def
  build_event_memory_context_def add_event_to_queue_def Let_def

text \<open>C1 as stated fails: a single structured call with \<^verbatim>\<open>request_heartbeat\<close> false is a
  sequence for \<open>N = 1\<close>; when it calls \<^verbatim>\<open>activate_message_mode\<close>, the turn makes two
  \<^verbatim>\<open>get_chat_response\<close> calls, the second one nested in the tool.\<close>

theorem message_mode_call_two_generations:
  "tool_call (quiet_message_provider 0)
     = Some \<lparr>fc_function = ''activate_message_mode'', fc_params = [],
             fc_request_heartbeat = Some False\<rparr>
   \<and> turn_generations quiet_message_provider memory_tools new_agent ''Hello'' = Some 2"
proof -
  have "\<exists>a'. turn_steps quiet_message_provider memory_tools new_agent ''Hello'' (Suc 0) = Break a'
            \<and> length (generations a') = 2"
    by (simp add: turn_defs quiet_message_provider_def message_mode_call_def prose_def
        activate_message_mode_run_def query_all_def send_message_to_user_def)
  then obtain a' where
    "turn_steps quiet_message_provider memory_tools new_agent ''Hello'' (Suc 0) = Break a'"
    "length (generations a') = 2" by blast
  with get_response_turn_steps[of quiet_message_provider memory_tools new_agent "''Hello''" "Suc 0" a']
  show ?thesis
    by (simp add: turn_generations_def quiet_message_provider_def message_mode_call_def)
qed

section \<open>The system prompt of a generation\<close>

text \<open>C4, as amended: on an inbound message with an empty event log (nothing queued, no
  row in the database), \<^verbatim>\<open>get_response\<close> appends a UserMessage event and renders a
  system prompt whose \<^verbatim>\<open>imb_count\<close> is 0 and whose \<^verbatim>\<open>ckv_count\<close> is the count of the
  archival memory (0 when that is empty too); the provider has been invoked exactly
  once, with that prompt, when the first tool dispatch starts, and the turn goes on
  from that dispatch.\<close>

theorem first_generation_counts:
  assumes "event_queue (memory a) = []"
    and "session_events (memory a) = []"
  shows "(case first_generation prov message a of (a4, out, query) \<Rightarrow>
            event_queue (memory a4) = [(UserMessage, message)]
          \<and> generations a4 = generations a @
               [\<lparr>g_system_prompt =
                    \<lparr>sp_documentation = documentation a,
                     sp_last_modified = last_modified (memory a),
                     sp_iam_content = iam_content (memory a),
                     sp_ckv_count = ckv_count (memory a),
                     sp_imb_count = 0\<rparr>,
                  g_messages = [(UserMessage, message)],
                  g_function_tool_registry = True, g_n_predict = 1024\<rparr>]
          \<and> out = prov (length (generations a))
          \<and> get_response prov reg a message =
               (case handle_function_call prov reg a4 out of
                  Inl e \<Rightarrow> Some (Inl e)
                | Inr (a5, r) \<Rightarrow>
                    heartbeat_loop prov reg query
                      (add_event_to_queue AgentMessage (last_response a5) a5, r)))"
  using assms
  by (simp add: first_generation_def get_response_def begin_turn_eq generation_round_def
      get_chat_response_def invoke_provider_def generate_prompt_def
      build_event_memory_context_def add_event_to_queue_def Let_def
      split: sum.splits prod.splits)

theorem first_generation_counts_witness:
  "event_queue (memory new_agent) = [] \<and> session_events (memory new_agent) = []
   \<and> rendered_counts (fst (first_generation yield_provider ''Hello'' new_agent)) = [(0, 0, 1)]
   \<and> event_queue (memory (fst (first_generation yield_provider ''Hello'' new_agent)))
        = [(UserMessage, ''Hello'')]"
proof -
  have h: "event_queue (memory new_agent) = []" "session_events (memory new_agent) = []"
    by (simp_all add: new_agent_def)
  have g: "generations new_agent = []" "ckv_count (memory new_agent) = 0"
    by (simp_all add: new_agent_def)
  from first_generation_counts[where a = new_agent and prov = yield_provider
      and message = "''Hello''" and reg = memory_tools, OF h] g h
  show ?thesis by (auto simp: rendered_counts_def split: prod.splits)
qed

text \<open>C4 as stated fails: an agent with an empty event log and two entries in its
  archival memory renders \<^verbatim>\<open>ckv_count\<close> 2, not 0 (with \<^verbatim>\<open>imb_count\<close> 0 and one event in
  the window).\<close>

theorem archival_count_rendered:
  "event_queue (memory stocked_agent) = [] \<and> session_events (memory stocked_agent) = []
   \<and> turn_counts yield_provider memory_tools stocked_agent ''Hello'' = Some [(0, 2, 1)]"
proof -
  have "\<exists>a'. turn_steps yield_provider memory_tools stocked_agent ''Hello'' (Suc 0) = Break a'
            \<and> rendered_counts a' = [(0, 2, 1)]"
    by (simp add: turn_defs yield_provider_def stocked_agent_def)
  then obtain a' where "turn_steps yield_provider memory_tools stocked_agent ''Hello'' (Suc 0) = Break a'"
    "rendered_counts a' = [(0, 2, 1)]" by blast
  with get_response_turn_steps[of yield_provider memory_tools stocked_agent "''Hello''" "Suc 0" a']
  show ?thesis by (simp add: turn_counts_def stocked_agent_def new_agent_def)
qed


section \<open>No bound on the heartbeat loop\<close>

lemma loop_steps_heartbeat:
  assumes "\<forall>i. requests reg (prov i) (Some True)"
    and "tr_request_heartbeat r = Some True"
  shows "\<exists>a' r'. loop_steps prov reg query k (a, Calls [r]) = Continue (a', Calls [r'])
            \<and> tr_request_heartbeat r' = Some True
            \<and> length (generations a') = length (generations a) + k"
  using assms(2)
proof (induction k arbitrary: a r)
  case 0
  then show ?case by simp
next
  case (Suc k)
  from assms(1) have "requests reg (prov (length (generations a))) (Some True)" by simp
  with loop_body_heartbeat[of r reg prov a "Some True" query] Suc.prems
  obtain a1 r1 where s1: "loop_body prov reg query (a, Calls [r]) = Continue (a1, Calls [r1])"
    "tr_request_heartbeat r1 = Some True" "length (generations a1) = Suc (length (generations a))"
    by auto
  from Suc.IH[OF s1(2), of a1]
  obtain a' r' where "loop_steps prov reg query k (a1, Calls [r1]) = Continue (a', Calls [r'])"
    "tr_request_heartbeat r' = Some True" "length (generations a') = length (generations a1) + k"
    by blast
  with s1 show ?case by simp
qed

text \<open>C8: the loop has no step cap. With a registered memory tool (the constructor
  registers those of the three memories), for every \<open>N\<close> the provider whose first \<open>N\<close>
  completions request a heartbeat makes \<^verbatim>\<open>get_response\<close> perform \<open>N + 1\<close> generations
  before it returns. Under a provider whose every completion requests a heartbeat it
  never returns, and the generations of the turn exceed every bound. And whenever
  \<^verbatim>\<open>get_response\<close> returns, the loop was left at a structured result that did not
  request a heartbeat.\<close>

theorem heartbeat_loop_unbounded:
  assumes "reg t = Some h"
    and "t \<noteq> activate_message_mode_name"
  shows "(\<forall>N. \<exists>a'. get_response (heartbeats_until t (length (generations a) + N)) reg a message
                      = Some (Inr a')
                 \<and> length (generations a') = length (generations a) + N + 1)
       \<and> (\<forall>prov reg'. (\<forall>i. requests reg' (prov i) (Some True)) \<longrightarrow>
              get_response prov reg' a message = None
            \<and> (\<forall>N. \<exists>k a'. state_after prov reg' a message k = Some a'
                         \<and> N < length (generations a')))
       \<and> (\<forall>prov reg' a'. get_response prov reg' a message = Some (Inr a') \<longrightarrow>
              (\<exists>k b r rs. turn_steps prov reg' a message k = Continue (b, Calls (r # rs))
                  \<and> tr_request_heartbeat r \<noteq> Some True
                  \<and> turn_steps prov reg' a message (Suc k) = Break a'))"
proof -
  have 1: "\<exists>a'. get_response (heartbeats_until t (length (generations a) + N)) reg a message
                      = Some (Inr a')
                 \<and> length (generations a') = length (generations a) + N + 1" for N
  proof -
    let ?p = "heartbeats_until t (length (generations a) + N)"
    have r: "requests reg (?p i) (Some (i < length (generations a) + N))" for i
      using assms by (simp add: requests_def heartbeats_until_def)
    have h1: "0 < Suc N" by simp
    have h2: "\<forall>i<Suc N - 1. requests reg (?p (length (generations a) + i)) (Some True)"
    proof (intro allI impI)
      fix i assume "i < Suc N - 1"
      with r[of "length (generations a) + i"]
      show "requests reg (?p (length (generations a) + i)) (Some True)" by simp
    qed
    have h3: "requests reg (?p (length (generations a) + (Suc N - 1))) (Some False)"
      using r[of "length (generations a) + N"] by simp
    from get_response_chain[where N = "Suc N" and reg = reg and prov = ?p and a = a
        and message = message, OF h1 h2 h3]
    show ?thesis by simp
  qed
  have 2: "get_response prov reg' a message = None
            \<and> (\<forall>N. \<exists>k a'. state_after prov reg' a message k = Some a'
                         \<and> N < length (generations a'))"
    if all: "\<forall>i. requests reg' (prov i) (Some True)" for prov reg'
  proof -
    obtain a2 q where bt: "begin_turn message a = (a2, q)" by force
    from all have "requests reg' (prov (length (generations a2))) (Some True)" by simp
    with generation_round_requests[of reg' prov a2 "Some True" q]
    obtain a3 r where gr: "generation_round prov reg' q a2 = Inr (a3, Calls [r])"
      "tr_request_heartbeat r = Some True" by auto
    have "heartbeat_loop prov reg' q (a3, Calls [r]) = None"
    proof (rule heartbeat_loop_None)
      fix k
      from loop_steps_heartbeat[OF all gr(2), of q k a3]
      show "\<exists>st'. loop_steps prov reg' q k (a3, Calls [r]) = Continue st'" by blast
    qed
    then have n: "get_response prov reg' a message = None"
      by (simp add: get_response_def bt gr(1))
    have "\<exists>k a'. state_after prov reg' a message k = Some a' \<and> N < length (generations a')" for N
    proof -
      from loop_steps_heartbeat[OF all gr(2), of q "Suc N" a3]
      obtain a' r' where "loop_steps prov reg' q (Suc N) (a3, Calls [r]) = Continue (a', Calls [r'])"
        "length (generations a') = length (generations a3) + Suc N" by blast
      then have "state_after prov reg' a message (Suc N) = Some a'" "N < length (generations a')"
        by (simp_all add: state_after_def turn_steps_def bt gr(1))
      then show ?thesis by blast
    qed
    with n show ?thesis by blast
  qed
  have 3: "\<exists>k b r rs. turn_steps prov reg' a message k = Continue (b, Calls (r # rs))
                  \<and> tr_request_heartbeat r \<noteq> Some True
                  \<and> turn_steps prov reg' a message (Suc k) = Break a'"
    if "get_response prov reg' a message = Some (Inr a')" for prov reg' a'
  proof -
    from turn_steps_get_response[OF that] obtain k where
      "turn_steps prov reg' a message k = Break a'" ..
    from turn_steps_last_pass[OF this] show ?thesis .
  qed
  from 1 2 3 show ?thesis by blast
qed

theorem heartbeat_loop_unbounded_witness:
  "memory_tools ''core_memory_append'' = Some core_memory_append
   \<and> (\<forall>N. \<exists>a'. get_response (heartbeats_until ''core_memory_append'' N) memory_tools new_agent ''Hello''
                  = Some (Inr a')
              \<and> length (generations a') = N + 1)
   \<and> requests memory_tools (heartbeat_provider 0) (Some True)
   \<and> get_response heartbeat_provider memory_tools new_agent ''Hello'' = None
   \<and> (\<exists>a' k b r rs.
          get_response (heartbeats_until ''core_memory_append'' 2) memory_tools new_agent ''Hello''
            = Some (Inr a')
        \<and> turn_steps (heartbeats_until ''core_memory_append'' 2) memory_tools new_agent ''Hello'' k
            = Continue (b, Calls (r # rs))
        \<and> tr_request_heartbeat r \<noteq> Some True
        \<and> turn_steps (heartbeats_until ''core_memory_append'' 2) memory_tools new_agent ''Hello'' (Suc k)
            = Break a')"
proof -
  have h1: "memory_tools ''core_memory_append'' = Some core_memory_append"
    by (simp add: memory_tools_def)
  have h2: "''core_memory_append'' \<noteq> activate_message_mode_name"
    by (simp add: activate_message_mode_name_def)
  have g: "length (generations new_agent) = 0" by (simp add: new_agent_def)
  have all: "\<forall>i. requests memory_tools (heartbeat_provider i) (Some True)"
    by (simp add: requests_def heartbeat_provider_def append_call_def memory_tools_def
        activate_message_mode_name_def)
  note th = heartbeat_loop_unbounded[where reg = memory_tools and t = "''core_memory_append''"
      and h = core_memory_append and a = new_agent and message = "''Hello''", OF h1 h2]
  from th g have a: "\<forall>N. \<exists>a'. get_response (heartbeats_until ''core_memory_append'' N) memory_tools
                     new_agent ''Hello'' = Some (Inr a')
              \<and> length (generations a') = N + 1" by simp
  from th all have b: "get_response heartbeat_provider memory_tools new_agent ''Hello'' = None"
    by blast
  from a obtain a' where a': "get_response (heartbeats_until ''core_memory_append'' 2) memory_tools
                     new_agent ''Hello'' = Some (Inr a')" by blast
  with th have "\<exists>k b r rs.
          turn_steps (heartbeats_until ''core_memory_append'' 2) memory_tools new_agent ''Hello'' k
            = Continue (b, Calls (r # rs))
        \<and> tr_request_heartbeat r \<noteq> Some True
        \<and> turn_steps (heartbeats_until ''core_memory_append'' 2) memory_tools new_agent ''Hello'' (Suc k)
            = Break a'" by blast
  with a' have c: "\<exists>a' k b r rs.
          get_response (heartbeats_until ''core_memory_append'' 2) memory_tools new_agent ''Hello''
            = Some (Inr a')
        \<and> turn_steps (heartbeats_until ''core_memory_append'' 2) memory_tools new_agent ''Hello'' k
            = Continue (b, Calls (r # rs))
        \<and> tr_request_heartbeat r \<noteq> Some True
        \<and> turn_steps (heartbeats_until ''core_memory_append'' 2) memory_tools new_agent ''Hello'' (Suc k)
            = Break a'" by blast
  from h1 a all b c show ?thesis by blast
qed

end
